theory Spec2Isabelle
  imports Complex_Main
begin

section \<open>Data model\<close>

text \<open>
  The JavaScript objects of \<^verbatim>\<open>probabilityCalculator.js\<close> live in a heap and are passed
  by reference; the simulator mutates the unit objects it works on. Unit objects and
  weapon objects are therefore kept in two typed stores indexed by references, and every
  field write of the source is a store update at the reference written through.
  Numbers that the parser produces with \<^verbatim>\<open>parseInt\<close> (and the distance, an integer
  number of inches in the caller) are integers; probabilities are exact reals.
\<close>

type_synonym ref = nat

text \<open>
  A weapon object. \<^verbatim>\<open>Range\<close> and \<^verbatim>\<open>name\<close> carry a suffix because HOL already has
  constants of these names. \<^verbatim>\<open>Deadly\<close> is an optional field: \<open>None\<close> is
  \<^verbatim>\<open>undefined\<close>. \<^verbatim>\<open>Furious\<close> and \<^verbatim>\<open>Predator\<close> are read with the default
  \<^verbatim>\<open>false\<close>, \<^verbatim>\<open>AP\<close> with the default \<^verbatim>\<open>0\<close>.
\<close>

record weapon =
  name_w :: string
  count :: int
  Range_w :: int
  Attacks :: int
  AP :: int
  Furious :: bool
  Predator :: bool
  Deadly :: "int option"

text \<open>
  A unit object. \<^verbatim>\<open>weapons\<close> is the array of references to the unit's weapon objects.
  \<^verbatim>\<open>toughValue\<close> and \<^verbatim>\<open>Modifier\<close> are optional fields (\<open>None\<close> is
  \<^verbatim>\<open>undefined\<close>). The fields from \<^verbatim>\<open>originalNumModels\<close> on are absent on a parsed
  unit and are assigned on the clone before the simulator reads them.
\<close>

record unit_obj =
  name :: string
  numModels :: int
  quality :: int
  defense :: int
  points :: int
  specialRules :: "string list"
  weapons :: "ref list"
  toughValue :: "int option"
  Modifier :: "int option"
  originalNumModels :: int
  shaken :: bool
  hasFoughtInMeleeThisTurn :: bool
  advanceRange :: int
  chargeRange :: int

section \<open>Core probability functions\<close>

text \<open>
  \<^verbatim>\<open>getSuccessChance(target)\<close>, lines 8-12. The reassignment of \<^verbatim>\<open>target\<close> is the
  inner \<open>let\<close>.
\<close>

definition getSuccessChance :: "real \<Rightarrow> real" where
  "getSuccessChance target =
     (if target > 6 then 1 / 6
      else (let target' = (if target < 2 then 2 else target)
            in (6 - target' + 1) / 6))"

section \<open>The simulation state\<close>

text \<open>
  The narrative log. Each constructor is one \<^verbatim>\<open>log.push\<close> of the source and carries
  the values interpolated into its template string:
  \<^item> \<open>TurnHeader t\<close>: \<^verbatim>\<open>--- Turn ${turn} ---\<close>
  \<^item> \<open>Idles u\<close>: \<^verbatim>\<open>${unit.name} is Shaken and idles to recover.\<close>
  \<^item> \<open>Charges u o\<close>: \<^verbatim>\<open>${unit.name} charges into ${opponent.name}.\<close>
  \<^item> \<open>Fights u o\<close>: \<^verbatim>\<open>${unit.name} fights ${opponent.name} in melee.\<close>
  \<^item> \<open>MeleeResult u1 k2 u2 k1\<close>: \<^verbatim>\<open>> Melee Result: ${unit1.name} inflicts ${killsOnUnit2} kills. ${unit2.name} inflicts ${killsOnUnit1} kills.\<close>
  \<^item> \<open>LostCombat u\<close>: \<^verbatim>\<open>> ${loser.name} lost the combat and must test morale.\<close>
  \<^item> \<open>PassedMorale u\<close>, \<open>IsShaken u\<close>, \<open>Retreats u\<close>: the three morale lines
  \<^item> \<open>MeleeDraw\<close>: \<^verbatim>\<open>> Melee is a draw. No morale test needed.\<close>
  \<^item> \<open>HoldsAndShoots u\<close>, \<open>RetreatsAndShoots u d\<close>, \<open>AdvancesAndShoots u d\<close>:
    \<^verbatim>\<open>${unit.name} ${actionText}.\<close> with the three values of \<^verbatim>\<open>actionText\<close>
  \<^item> \<open>WeaponKills w k\<close>: \<^verbatim>\<open>> ${rangedWeapon.name} kills ${kills} models.\<close>
  \<^item> \<open>Rushes u d\<close>: \<^verbatim>\<open>${unit.name} rushes ${rushDist}" forward.\<close>
\<close>

datatype entry =
    TurnHeader int
  | Idles string
  | Charges string string
  | Fights string string
  | MeleeResult string int string int
  | LostCombat string
  | PassedMorale string
  | IsShaken string
  | Retreats string
  | MeleeDraw
  | HoldsAndShoots string
  | RetreatsAndShoots string int
  | AdvancesAndShoots string int
  | WeaponKills string int
  | Rushes string int

text \<open>
  Everything the simulator reads and writes: the two object stores with their allocation
  counters (a reference below the counter is allocated), the ambient random source, and
  the two local variables \<^verbatim>\<open>currentDistance\<close> and \<^verbatim>\<open>log\<close> that the closures
  \<^verbatim>\<open>handleMeleeRound\<close> and \<^verbatim>\<open>unitActs\<close> capture.

  \<open>dice s k\<close> stands for the \<open>k\<close>-th value of \<^verbatim>\<open>Math.random()\<close> scaled to a whole
  number, and \<open>pos s\<close> counts the calls made so far.
\<close>

record state =
  uobj :: "ref \<Rightarrow> unit_obj"
  wobj :: "ref \<Rightarrow> weapon"
  unext :: ref
  wnext :: ref
  dice :: "nat \<Rightarrow> nat"
  pos :: nat
  currentDistance :: int
  log_lines :: "entry list"

text \<open>\<^verbatim>\<open>Math.floor(Math.random() * 6) + 1\<close>: a value in 1..6, and one more call made.\<close>

definition rollDie :: "state \<Rightarrow> int \<times> state" where
  "rollDie s = (int (dice s (pos s) mod 6) + 1, s\<lparr>pos := pos s + 1\<rparr>)"

section \<open>Simulation functions\<close>

text \<open>
  \<^verbatim>\<open>simulateHitRolls(numDice, quality, modifier)\<close>, lines 64-82. The \<^verbatim>\<open>for\<close> loop
  runs \<open>nat numDice\<close> times (not at all for a count of zero or less); the loop function
  carries \<^verbatim>\<open>successes\<close> and \<^verbatim>\<open>sixes\<close>.
\<close>

fun hitRollLoop :: "nat \<Rightarrow> int \<Rightarrow> int \<Rightarrow> int \<Rightarrow> state \<Rightarrow> (int \<times> int) \<times> state" where
  "hitRollLoop 0 target successes sixes s = ((successes, sixes), s)"
| "hitRollLoop (Suc n) target successes sixes s =
     (case rollDie s of (roll, s') \<Rightarrow>
        if roll = 1 then hitRollLoop n target successes sixes s'
        else if roll = 6 then hitRollLoop n target (successes + 1) (sixes + 1) s'
        else if roll \<ge> target then hitRollLoop n target (successes + 1) sixes s'
        else hitRollLoop n target successes sixes s')"

definition simulateHitRolls :: "int \<Rightarrow> int \<Rightarrow> int \<Rightarrow> state \<Rightarrow> (int \<times> int) \<times> state" where
  "simulateHitRolls numDice qual modifier s =
     hitRollLoop (nat numDice) (qual - modifier) 0 0 s"

text \<open>\<^verbatim>\<open>simulateDefenseRolls(numDice, defense, ap)\<close>, lines 84-100.\<close>

fun defenseRollLoop :: "nat \<Rightarrow> int \<Rightarrow> int \<Rightarrow> state \<Rightarrow> int \<times> state" where
  "defenseRollLoop 0 target successes s = (successes, s)"
| "defenseRollLoop (Suc n) target successes s =
     (case rollDie s of (roll, s') \<Rightarrow>
        if roll = 1 then defenseRollLoop n target successes s'
        else if roll = 6 then defenseRollLoop n target (successes + 1) s'
        else if roll \<ge> target then defenseRollLoop n target (successes + 1) s'
        else defenseRollLoop n target successes s')"

definition simulateDefenseRolls :: "int \<Rightarrow> int \<Rightarrow> int \<Rightarrow> state \<Rightarrow> int \<times> state" where
  "simulateDefenseRolls numDice def ap s =
     defenseRollLoop (nat numDice) (def + ap) 0 s"

text \<open>
  \<^verbatim>\<open>calculateHits({ weaponProfile, attackerStats, numModels })\<close>, lines 102-123. The
  result is the pair \<open>(hits, ap)\<close>. \<^verbatim>\<open>Modifier = 0\<close> is the destructuring default.
\<close>

definition calculateHits :: "weapon \<Rightarrow> unit_obj \<Rightarrow> int \<Rightarrow> state \<Rightarrow> (int \<times> int) \<times> state" where
  "calculateHits weaponProfile attackerStats nModels s =
     (let modifier = (case Modifier attackerStats of None \<Rightarrow> 0 | Some m \<Rightarrow> m);
          totalDice = nModels * Attacks weaponProfile
      in case simulateHitRolls totalDice (quality attackerStats) modifier s of
           ((successes, sixes), s1) \<Rightarrow>
             (let totalHits = (if Furious weaponProfile then successes + sixes else successes)
              in if Predator weaponProfile \<and> sixes > 0
                 then (case simulateHitRolls sixes (quality attackerStats) modifier s1 of
                         ((bonus, bonusSixes), s2) \<Rightarrow> ((totalHits + bonus, AP weaponProfile), s2))
                 else ((totalHits, AP weaponProfile), s1)))"

text \<open>
  \<^verbatim>\<open>if (w.Deadly) wounds *= w.Deadly\<close>, lines 147-149 and 173-174: the field counts as
  present when it is truthy, that is a number other than 0.
\<close>

definition applyDeadly :: "weapon \<Rightarrow> int \<Rightarrow> int" where
  "applyDeadly w wounds =
     (case Deadly w of
        None \<Rightarrow> wounds
      | Some n \<Rightarrow> if n \<noteq> 0 then wounds * n else wounds)"

text \<open>\<^verbatim>\<open>rangedAttack({...})\<close>, lines 125-155.\<close>

record ranged_result =
  inRange :: bool
  totalWounds :: int

definition rangedAttack ::
  "weapon \<Rightarrow> unit_obj \<Rightarrow> int \<Rightarrow> unit_obj \<Rightarrow> int \<Rightarrow> state \<Rightarrow> ranged_result \<times> state" where
  "rangedAttack weaponProfile attackerStats nModels targetStats distanceToTarget s =
     (let weaponRange = Range_w weaponProfile
      in if distanceToTarget > weaponRange
         then (\<lparr>inRange = False, totalWounds = 0\<rparr>, s)
         else (case calculateHits weaponProfile attackerStats nModels s of
                 ((hits, ap), s1) \<Rightarrow>
                   (case simulateDefenseRolls hits (defense targetStats) ap s1 of
                      (successfulSaves, s2) \<Rightarrow>
                        (\<lparr>inRange = True,
                          totalWounds = applyDeadly weaponProfile (hits - successfulSaves)\<rparr>, s2))))"

text \<open>
  \<^verbatim>\<open>u.weapons.find(w => w.Range === 0) || { Attacks: 1, AP: 0 }\<close>, lines 158-159 and
  202-203. The fallback literal has no other field; the fields it lacks are read with
  their defaults (\<^verbatim>\<open>Furious\<close>, \<^verbatim>\<open>Predator\<close>, \<^verbatim>\<open>Deadly\<close>) or not at all.
\<close>

definition fallbackWeapon :: weapon where
  "fallbackWeapon =
     \<lparr>name_w = [], count = 0, Range_w = 0, Attacks = 1, AP = 0,
      Furious = False, Predator = False, Deadly = None\<rparr>"

definition meleeWeapon :: "(ref \<Rightarrow> weapon) \<Rightarrow> unit_obj \<Rightarrow> weapon" where
  "meleeWeapon W u =
     (case find (\<lambda>r. Range_w (W r) = 0) (weapons u) of
        Some r \<Rightarrow> W r
      | None \<Rightarrow> fallbackWeapon)"

text \<open>
  \<^verbatim>\<open>u.hasFoughtInMeleeThisTurn ? 6 : u.quality\<close>, lines 161-162 and 206-207, and the
  object \<^verbatim>\<open>{ ...u, quality: ... }\<close> of lines 161-162.
\<close>

definition effectiveQuality :: "unit_obj \<Rightarrow> int" where
  "effectiveQuality u = (if hasFoughtInMeleeThisTurn u then 6 else quality u)"

definition effectiveStats :: "unit_obj \<Rightarrow> unit_obj" where
  "effectiveStats u = u\<lparr>quality := effectiveQuality u\<rparr>"

text \<open>\<^verbatim>\<open>meleeResolution({ attacker, defender })\<close>, lines 157-180.\<close>

record melee_result =
  totalWoundsToDefender :: int
  totalWoundsToAttacker :: int

definition meleeResolution :: "unit_obj \<Rightarrow> unit_obj \<Rightarrow> state \<Rightarrow> melee_result \<times> state" where
  "meleeResolution attacker defender s =
     (let attackerWeapon = meleeWeapon (wobj s) attacker;
          defenderWeapon = meleeWeapon (wobj s) defender
      in case calculateHits attackerWeapon (effectiveStats attacker) (numModels attacker) s of
           ((attackerHits, attackerAp), s1) \<Rightarrow>
      case calculateHits defenderWeapon (effectiveStats defender) (numModels defender) s1 of
           ((defenderHits, defenderAp), s2) \<Rightarrow>
      case simulateDefenseRolls defenderHits (defense attacker) defenderAp s2 of
           (attackerSaves, s3) \<Rightarrow>
      case simulateDefenseRolls attackerHits (defense defender) attackerAp s3 of
           (defenderSaves, s4) \<Rightarrow>
        (\<lparr>totalWoundsToDefender = applyDeadly attackerWeapon (attackerHits - defenderSaves),
          totalWoundsToAttacker = applyDeadly defenderWeapon (defenderHits - attackerSaves)\<rparr>,
         s4))"

text \<open>
  \<^verbatim>\<open>resolvePostCombatMorale(unit, originalNumModels)\<close>, lines 182-198.
  \<^verbatim>\<open>unit.specialRules?.includes('Fearless')\<close> is list membership. The comparison with
  \<^verbatim>\<open>originalNumModels / 2\<close> is a comparison of reals.
\<close>

datatype morale = PASS | SHAKEN | RETREAT

definition resolvePostCombatMorale :: "unit_obj \<Rightarrow> int \<Rightarrow> state \<Rightarrow> morale \<times> state" where
  "resolvePostCombatMorale u originalNum s =
     (case rollDie s of (roll1, s1) \<Rightarrow>
        (case (if \<not> (roll1 \<ge> quality u) \<and> ''Fearless'' \<in> set (specialRules u)
               then (case rollDie s1 of (roll2, s2) \<Rightarrow> (roll2 \<ge> 4, s2))
               else (roll1 \<ge> quality u, s1)) of
           (passedMorale, s') \<Rightarrow>
             if passedMorale then (PASS, s')
             else if real_of_int (numModels u) < real_of_int originalNum / 2
                  then (RETREAT, s')
                  else (SHAKEN, s')))"

text \<open>
  \<^verbatim>\<open>estimateMeleeEffectiveness(unit, opponent)\<close>, lines 201-222. The result is the pair
  \<open>(expectedWoundsOnOpponent, expectedWoundsOnUnit)\<close>. The two expectations are computed
  here over the exact reals; the source computes them in double precision, where two
  products that are equal as reals can round to different doubles. The comparison of
  the two in \<^verbatim>\<open>decideAction\<close> can therefore differ from the source when the exact values
  tie: the source may then return \<^verbatim>\<open>'advance'\<close> where this model returns \<open>Fight\<close>.
\<close>

definition estimateMeleeEffectiveness :: "(ref \<Rightarrow> weapon) \<Rightarrow> unit_obj \<Rightarrow> unit_obj \<Rightarrow> real \<times> real" where
  "estimateMeleeEffectiveness W u opponent =
     (let unitWeapon = meleeWeapon W u;
          opponentWeapon = meleeWeapon W opponent;
          unitQuality = effectiveQuality u;
          opponentQuality = effectiveQuality opponent;
          unitHitChance = getSuccessChance (real_of_int unitQuality);
          opponentHitChance = getSuccessChance (real_of_int opponentQuality);
          unitHits = real_of_int (numModels u) * real_of_int (Attacks unitWeapon) * unitHitChance;
          opponentHits =
            real_of_int (numModels opponent) * real_of_int (Attacks opponentWeapon) * opponentHitChance;
          unitWoundChance = 1 - getSuccessChance (real_of_int (defense opponent + AP unitWeapon));
          opponentWoundChance = 1 - getSuccessChance (real_of_int (defense u + AP opponentWeapon));
          expectedWoundsOnOpponent = unitHits * unitWoundChance;
          expectedWoundsOnUnit = opponentHits * opponentWoundChance
      in (expectedWoundsOnOpponent, expectedWoundsOnUnit))"

text \<open>
  \<^verbatim>\<open>decideAction({ attacker, opponent, distanceToTarget })\<close>, lines 224-255.
  \<^verbatim>\<open>x || 12\<close> takes 12 when \<^verbatim>\<open>x\<close> is falsy, that is 0 for a number.
\<close>

datatype action = Idle | Fight | Advance | Charge | Hold | Rush

definition decideAction :: "(ref \<Rightarrow> weapon) \<Rightarrow> unit_obj \<Rightarrow> unit_obj \<Rightarrow> int \<Rightarrow> action" where
  "decideAction W attacker opponent distanceToTarget =
     (if shaken attacker then Idle
      else if distanceToTarget = 0 then
        (case estimateMeleeEffectiveness W attacker opponent of
           (expectedWoundsOnOpponent, expectedWoundsOnUnit) \<Rightarrow>
             if expectedWoundsOnUnit > expectedWoundsOnOpponent then Advance else Fight)
      else
        (let chargeRng = (if chargeRange attacker = 0 then 12 else chargeRange attacker);
             advanceRng = (if advanceRange attacker = 0 then 6 else advanceRange attacker);
             rangedWeapon = find (\<lambda>r. Range_w (W r) > 0) (weapons attacker);
             canCharge = (distanceToTarget \<le> chargeRng);
             canShootHold =
               (case rangedWeapon of None \<Rightarrow> False
                | Some r \<Rightarrow> distanceToTarget \<le> Range_w (W r));
             canShootAdvance =
               (case rangedWeapon of None \<Rightarrow> False
                | Some r \<Rightarrow> distanceToTarget \<le> Range_w (W r) + advanceRng)
         in if canCharge then Charge
            else if canShootHold then Hold
            else if canShootAdvance then Advance
            else Rush))"

section \<open>The engagement simulator\<close>

text \<open>A field write \<^verbatim>\<open>r.f = v\<close> through the reference \<open>r\<close>, and \<^verbatim>\<open>log.push(e)\<close>.\<close>

definition setUnit :: "ref \<Rightarrow> (unit_obj \<Rightarrow> unit_obj) \<Rightarrow> state \<Rightarrow> state" where
  "setUnit r f s = s\<lparr>uobj := (uobj s)(r := f (uobj s r))\<rparr>"

definition pushLog :: "entry \<Rightarrow> state \<Rightarrow> state" where
  "pushLog e s = s\<lparr>log_lines := log_lines s @ [e]\<rparr>"

text \<open>\<^verbatim>\<open>u.toughValue || 1\<close>: 1 when the field is \<^verbatim>\<open>undefined\<close> or 0.\<close>

definition toughOr1 :: "unit_obj \<Rightarrow> int" where
  "toughOr1 u = (case toughValue u of None \<Rightarrow> 1 | Some t \<Rightarrow> if t = 0 then 1 else t)"

text \<open>
  \<^verbatim>\<open>cloneUnit\<close>, lines 263-270. \<^verbatim>\<open>unit.weapons.map((w) => ({ ...w }))\<close> allocates one
  new weapon object per weapon, each a copy of the original's fields; the object literal
  allocates the new unit object, a copy of the original's fields with five of them
  overwritten.
\<close>

fun cloneWeapons :: "ref list \<Rightarrow> state \<Rightarrow> ref list \<times> state" where
  "cloneWeapons [] s = ([], s)"
| "cloneWeapons (w # ws) s =
     (let r = wnext s;
          s1 = s\<lparr>wobj := (wobj s)(r := wobj s w), wnext := r + 1\<rparr>
      in case cloneWeapons ws s1 of (rs, s2) \<Rightarrow> (r # rs, s2))"

definition cloneUnit :: "ref \<Rightarrow> state \<Rightarrow> ref \<times> state" where
  "cloneUnit u s =
     (case cloneWeapons (weapons (uobj s u)) s of
        (ws, s1) \<Rightarrow>
          (let r = unext s1
           in (r, s1\<lparr>uobj := (uobj s1)(r := (uobj s1 u)
                        \<lparr>numModels := numModels (uobj s1 u),
                         originalNumModels := numModels (uobj s1 u),
                         shaken := False,
                         hasFoughtInMeleeThisTurn := False,
                         weapons := ws\<rparr>),
                    unext := r + 1\<rparr>)))"

text \<open>Lines 275-283 for one of the two clones: the movement allowances.\<close>

definition setRanges :: "ref \<Rightarrow> state \<Rightarrow> state" where
  "setRanges r s =
     (let isFast = (''Fast'' \<in> set (specialRules (uobj s r)));
          isSlow = (''Slow'' \<in> set (specialRules (uobj s r)));
          s1 = setUnit r (\<lambda>u. u\<lparr>advanceRange := (if isFast then 8 else if isSlow then 4 else 6)\<rparr>) s
      in setUnit r (\<lambda>u. u\<lparr>chargeRange := (if isFast then 16 else if isSlow then 8 else 12)\<rparr>) s1)"

text \<open>
  \<^verbatim>\<open>handleMeleeRound(unit1, unit2)\<close>, lines 289-330, in its three parts: the kills
  (lines 292-301), the loser (lines 303-308) and the morale test (lines 310-329).
  \<^verbatim>\<open>Math.floor(a / b)\<close> on integers is \<open>a div b\<close>, which rounds down.
\<close>

definition applyMeleeKills :: "melee_result \<Rightarrow> ref \<Rightarrow> ref \<Rightarrow> state \<Rightarrow> state" where
  "applyMeleeKills meleeResult unit1 unit2 s =
     (let s1 = setUnit unit1 (\<lambda>u. u\<lparr>hasFoughtInMeleeThisTurn := True\<rparr>) s;
          s2 = setUnit unit2 (\<lambda>u. u\<lparr>hasFoughtInMeleeThisTurn := True\<rparr>) s1;
          killsOnUnit2 = totalWoundsToDefender meleeResult div toughOr1 (uobj s2 unit2);
          killsOnUnit1 = totalWoundsToAttacker meleeResult div toughOr1 (uobj s2 unit1);
          s3 = setUnit unit2 (\<lambda>u. u\<lparr>numModels := max 0 (numModels u - killsOnUnit2)\<rparr>) s2;
          s4 = setUnit unit1 (\<lambda>u. u\<lparr>numModels := max 0 (numModels u - killsOnUnit1)\<rparr>) s3
      in pushLog (MeleeResult (name (uobj s4 unit1)) killsOnUnit2
                              (name (uobj s4 unit2)) killsOnUnit1) s4)"

definition meleeLoser :: "melee_result \<Rightarrow> ref \<Rightarrow> ref \<Rightarrow> ref option" where
  "meleeLoser meleeResult unit1 unit2 =
     (if totalWoundsToDefender meleeResult > totalWoundsToAttacker meleeResult then Some unit2
      else if totalWoundsToAttacker meleeResult > totalWoundsToDefender meleeResult then Some unit1
      else None)"

definition applyMorale :: "ref option \<Rightarrow> state \<Rightarrow> state" where
  "applyMorale loser s =
     (case loser of
        None \<Rightarrow> pushLog MeleeDraw s
      | Some l \<Rightarrow>
          if numModels (uobj s l) > 0 then
            (let s1 = pushLog (LostCombat (name (uobj s l))) s
             in case resolvePostCombatMorale (uobj s1 l) (originalNumModels (uobj s1 l)) s1 of
                  (moraleResult, s2) \<Rightarrow>
                    (case moraleResult of
                       PASS \<Rightarrow> pushLog (PassedMorale (name (uobj s2 l))) s2
                     | SHAKEN \<Rightarrow>
                         pushLog (IsShaken (name (uobj s2 l)))
                           (setUnit l (\<lambda>u. u\<lparr>shaken := True\<rparr>) s2)
                     | RETREAT \<Rightarrow>
                         setUnit l (\<lambda>u. u\<lparr>numModels := 0\<rparr>)
                           (pushLog (Retreats (name (uobj s2 l))) s2)))
          else s)"

definition handleMeleeRound :: "ref \<Rightarrow> ref \<Rightarrow> state \<Rightarrow> state" where
  "handleMeleeRound unit1 unit2 s =
     (case meleeResolution (uobj s unit1) (uobj s unit2) s of
        (meleeResult, s1) \<Rightarrow>
          applyMorale (meleeLoser meleeResult unit1 unit2)
            (applyMeleeKills meleeResult unit1 unit2 s1))"

text \<open>
  \<^verbatim>\<open>unitActs(unit, opponent)\<close>, lines 339-389. The movement of the \<^verbatim>\<open>advance\<close>
  decision (lines 360-368) and the shot (lines 370-382) are its two named parts.
\<close>

definition advanceMove :: "ref \<Rightarrow> int \<Rightarrow> state \<Rightarrow> state" where
  "advanceMove u initialDistance s =
     (if initialDistance = 0
      then pushLog (RetreatsAndShoots (name (uobj s u)) (advanceRange (uobj s u)))
             (s\<lparr>currentDistance := currentDistance s + advanceRange (uobj s u)\<rparr>)
      else pushLog (AdvancesAndShoots (name (uobj s u)) (advanceRange (uobj s u)))
             (s\<lparr>currentDistance := max 0 (currentDistance s - advanceRange (uobj s u))\<rparr>))"

definition fireRanged :: "ref \<Rightarrow> ref \<Rightarrow> state \<Rightarrow> state" where
  "fireRanged u opponent s =
     (case find (\<lambda>w. Range_w (wobj s w) > 0 \<and> Range_w (wobj s w) \<ge> currentDistance s)
             (weapons (uobj s u)) of
        None \<Rightarrow> s
      | Some rangedWeapon \<Rightarrow>
          (case rangedAttack (wobj s rangedWeapon) (uobj s u) (numModels (uobj s u))
                  (uobj s opponent) (currentDistance s) s of
             (result, s1) \<Rightarrow>
               (let kills = min (numModels (uobj s1 opponent))
                              (totalWounds result div toughOr1 (uobj s1 opponent));
                    s2 = setUnit opponent (\<lambda>x. x\<lparr>numModels := numModels x - kills\<rparr>) s1
                in pushLog (WeaponKills (name_w (wobj s2 rangedWeapon)) kills) s2)))"

definition unitActs :: "ref \<Rightarrow> ref \<Rightarrow> state \<Rightarrow> bool \<times> state" where
  "unitActs u opponent s =
     (let initialDistance = currentDistance s;
          decision = decideAction (wobj s) (uobj s u) (uobj s opponent) (currentDistance s)
      in if decision = Idle then
           (False, setUnit u (\<lambda>x. x\<lparr>shaken := False\<rparr>) (pushLog (Idles (name (uobj s u))) s))
         else if decision = Charge then
           (True, handleMeleeRound u opponent
                    (pushLog (Charges (name (uobj s u)) (name (uobj s opponent)))
                       (s\<lparr>currentDistance := 0\<rparr>)))
         else if decision = Fight then
           (False, handleMeleeRound u opponent
                     (pushLog (Fights (name (uobj s u)) (name (uobj s opponent))) s))
         else if decision = Hold \<or> decision = Advance then
           (False, fireRanged u opponent
                     (if decision = Advance then advanceMove u initialDistance s
                      else pushLog (HoldsAndShoots (name (uobj s u))) s))
         else if decision = Rush then
           (let rushDist = chargeRange (uobj s u)
            in (False, pushLog (Rushes (name (uobj s u)) rushDist)
                         (s\<lparr>currentDistance := max 0 (currentDistance s - rushDist)\<rparr>)))
         else (False, s))"

text \<open>
  Lines 391-398: the two units act in the given order. \<open>firstAction\<close> is line 393 (or
  396): the first unit acts if it has models left, and \<^verbatim>\<open>chargeOccurred\<close> is what
  \<^verbatim>\<open>unitActs\<close> returned; the second unit acts only if it has models left and the first
  did not charge.
\<close>

definition firstAction :: "ref \<Rightarrow> ref \<Rightarrow> state \<Rightarrow> bool \<times> state" where
  "firstAction first second s =
     (if numModels (uobj s first) > 0 then unitActs first second s else (False, s))"

definition actInOrder :: "ref \<Rightarrow> ref \<Rightarrow> state \<Rightarrow> state" where
  "actInOrder first second s =
     (case firstAction first second s of
        (chargeOccurred, s1) \<Rightarrow>
          if numModels (uobj s1 second) > 0 \<and> \<not> chargeOccurred
          then snd (unitActs second first s1)
          else s1)"

text \<open>
  The body of the turn loop after the guard, lines 335-398; \<open>turnStart\<close> is lines
  335-337, the turn header and the reset of the two fatigue flags.
\<close>

definition turnStart :: "ref \<Rightarrow> ref \<Rightarrow> int \<Rightarrow> state \<Rightarrow> state" where
  "turnStart attacker defender turn s =
     (let s1 = pushLog (TurnHeader turn) s;
          s2 = setUnit attacker (\<lambda>u. u\<lparr>hasFoughtInMeleeThisTurn := False\<rparr>) s1
      in setUnit defender (\<lambda>u. u\<lparr>hasFoughtInMeleeThisTurn := False\<rparr>) s2)"

definition playTurn :: "bool \<Rightarrow> ref \<Rightarrow> ref \<Rightarrow> int \<Rightarrow> state \<Rightarrow> state" where
  "playTurn attackerFirst attacker defender turn s =
     (let s3 = turnStart attacker defender turn s
      in if attackerFirst then actInOrder attacker defender s3
         else actInOrder defender attacker s3)"

text \<open>
  The loop \<^verbatim>\<open>for (turn = 1; turn <= 4; turn++)\<close> with its \<^verbatim>\<open>break\<close>, lines 332-399.
  The result is the value of \<^verbatim>\<open>turn\<close> on leaving the loop and the state reached.
\<close>

function turnLoop :: "bool \<Rightarrow> ref \<Rightarrow> ref \<Rightarrow> int \<Rightarrow> state \<Rightarrow> int \<times> state" where
  "turnLoop attackerFirst attacker defender turn s =
     (if turn \<le> 4 then
        (if numModels (uobj s attacker) \<le> 0 \<or> numModels (uobj s defender) \<le> 0
         then (turn, s)
         else turnLoop attackerFirst attacker defender (turn + 1)
                (playTurn attackerFirst attacker defender turn s))
      else (turn, s))"
  by pat_completeness auto
termination
  by (relation "measure (\<lambda>(attackerFirst, attacker, defender, turn, s). nat (5 - turn))") auto

text \<open>
  \<^verbatim>\<open>simulateRangedExchangeUntilMelee({ unitA, unitB, startingDistance, attackerFirst })\<close>,
  lines 257-408. The caller's two units are references into the store. The function
  returns the result object and leaves the store and the random source as the run left
  them.
\<close>

record result =
  turnsElapsed :: int
  finalDistance :: int
  survivingA :: int
  survivingB :: int
  log_result :: "entry list"

definition startState :: "ref \<Rightarrow> ref \<Rightarrow> int \<Rightarrow> state \<Rightarrow> (ref \<times> ref) \<times> state" where
  "startState unitA unitB startingDistance s =
     (case cloneUnit unitA s of (attacker, s1) \<Rightarrow>
      case cloneUnit unitB s1 of (defender, s2) \<Rightarrow>
        ((attacker, defender),
         (setRanges defender (setRanges attacker s2))
           \<lparr>currentDistance := startingDistance, log_lines := []\<rparr>))"

definition simulateRangedExchangeUntilMelee ::
  "ref \<Rightarrow> ref \<Rightarrow> int \<Rightarrow> bool \<Rightarrow> state \<Rightarrow> result \<times> state" where
  "simulateRangedExchangeUntilMelee unitA unitB startingDistance attackerFirst s =
     (case startState unitA unitB startingDistance s of
        ((attacker, defender), s0) \<Rightarrow>
          (case turnLoop attackerFirst attacker defender 1 s0 of
             (turn, s') \<Rightarrow>
               (\<lparr>turnsElapsed = turn - 1,
                 finalDistance = currentDistance s',
                 survivingA = numModels (uobj s' attacker),
                 survivingB = numModels (uobj s' defender),
                 log_result = log_lines s'\<rparr>, s')))"

section \<open>Well-formed input and what a run may change\<close>

text \<open>
  A well-formed weapon has no negative \<^verbatim>\<open>Deadly\<close> multiplier; a well-formed unit has
  no negative model count or toughness, and well-formed weapons.
\<close>

definition deadlyOk :: "weapon \<Rightarrow> bool" where
  "deadlyOk w = (case Deadly w of None \<Rightarrow> True | Some n \<Rightarrow> 0 \<le> n)"

definition wellFormed :: "(ref \<Rightarrow> weapon) \<Rightarrow> unit_obj \<Rightarrow> bool" where
  "wellFormed W u =
     (0 \<le> numModels u \<and>
      (case toughValue u of None \<Rightarrow> True | Some t \<Rightarrow> 0 \<le> t) \<and>
      list_all (\<lambda>r. deadlyOk (W r)) (weapons u))"

text \<open>
  \<open>sameProfile u u'\<close>: the unit object \<open>u'\<close> differs from \<open>u\<close> at most in
  \<^verbatim>\<open>numModels\<close>, \<^verbatim>\<open>shaken\<close> and \<^verbatim>\<open>hasFoughtInMeleeThisTurn\<close>.
\<close>

definition sameProfile :: "unit_obj \<Rightarrow> unit_obj \<Rightarrow> bool" where
  "sameProfile u u' =
     (u' = u\<lparr>numModels := numModels u', shaken := shaken u',
             hasFoughtInMeleeThisTurn := hasFoughtInMeleeThisTurn u'\<rparr>)"

text \<open>
  \<open>evolves a d s s'\<close>: from \<open>s\<close> to \<open>s'\<close> no weapon object and no unit object other
  than \<open>a\<close> and \<open>d\<close> has changed, nothing was allocated, every unit kept its profile,
  no model count went up, and no model count or distance went below zero.
\<close>

definition evolves :: "ref \<Rightarrow> ref \<Rightarrow> state \<Rightarrow> state \<Rightarrow> bool" where
  "evolves a d s s' =
     (wobj s' = wobj s \<and> unext s' = unext s \<and> wnext s' = wnext s \<and> dice s' = dice s \<and>
      (\<forall>r. r \<noteq> a \<and> r \<noteq> d \<longrightarrow> uobj s' r = uobj s r) \<and>
      (\<forall>r. sameProfile (uobj s r) (uobj s' r) \<and> numModels (uobj s' r) \<le> numModels (uobj s r) \<and>
           (0 \<le> numModels (uobj s r) \<longrightarrow> 0 \<le> numModels (uobj s' r))) \<and>
      (0 \<le> currentDistance s \<longrightarrow> 0 \<le> currentDistance s'))"

text \<open>
  The invariant of the turn loop for the two clones \<open>a\<close> and \<open>d\<close>: they are two
  objects, both well-formed, the distance and the advance allowances are not negative.
\<close>

definition inv :: "ref \<Rightarrow> ref \<Rightarrow> state \<Rightarrow> bool" where
  "inv a d s =
     (a \<noteq> d \<and> wellFormed (wobj s) (uobj s a) \<and> wellFormed (wobj s) (uobj s d) \<and>
      0 \<le> currentDistance s \<and>
      0 \<le> advanceRange (uobj s a) \<and> 0 \<le> advanceRange (uobj s d))"

text \<open>
  A caller's unit reference is allocated when the unit object and all its weapon
  objects lie below the allocation counters.
\<close>

definition allocated :: "state \<Rightarrow> ref \<Rightarrow> bool" where
  "allocated s u = (u < unext s \<and> list_all (\<lambda>w. w < wnext s) (weapons (uobj s u)))"

text \<open>
  \<open>writesOnly a d s s'\<close>: from \<open>s\<close> to \<open>s'\<close> nothing was allocated and no object of
  either store changed except the unit objects \<open>a\<close> and \<open>d\<close>.
\<close>

definition writesOnly :: "ref \<Rightarrow> ref \<Rightarrow> state \<Rightarrow> state \<Rightarrow> bool" where
  "writesOnly a d s s' =
     (wobj s' = wobj s \<and> unext s' = unext s \<and> wnext s' = wnext s \<and>
      (\<forall>r. r \<noteq> a \<and> r \<noteq> d \<longrightarrow> uobj s' r = uobj s r))"

text \<open>
  The states at the head of the turn loop, one for each evaluation of the loop
  condition of lines 332-333; the last one is the state on leaving the loop.
\<close>

function turnTrace :: "bool \<Rightarrow> ref \<Rightarrow> ref \<Rightarrow> int \<Rightarrow> state \<Rightarrow> state list" where
  "turnTrace attackerFirst attacker defender turn s =
     (if turn \<le> 4 then
        (if numModels (uobj s attacker) \<le> 0 \<or> numModels (uobj s defender) \<le> 0
         then [s]
         else s # turnTrace attackerFirst attacker defender (turn + 1)
                    (playTurn attackerFirst attacker defender turn s))
      else [s])"
  by pat_completeness auto
termination
  by (relation "measure (\<lambda>(attackerFirst, attacker, defender, turn, s). nat (5 - turn))") auto

declare turnLoop.simps [simp del] turnTrace.simps [simp del]

text \<open>
  The bounds of the engagement: both model counts between 0 and their initial values,
  and a distance that is not negative.
\<close>

definition inBounds :: "ref \<Rightarrow> ref \<Rightarrow> int \<Rightarrow> int \<Rightarrow> state \<Rightarrow> bool" where
  "inBounds a d nA nB st =
     (0 \<le> numModels (uobj st a) \<and> numModels (uobj st a) \<le> nA \<and>
      0 \<le> numModels (uobj st d) \<and> numModels (uobj st d) \<le> nB \<and>
      0 \<le> currentDistance st)"

section \<open>Example data\<close>

text \<open>
  \<open>diceOf xs\<close> is the random source whose first values are \<open>xs\<close> (a value \<open>v\<close> rolls
  \<open>v mod 6 + 1\<close>) and 0 afterwards. The units are the example of the parser's grammar:
  five Grunts, Q4+ D5+, Fast, with a rifle and a combat blade, twice.
\<close>

definition diceOf :: "nat list \<Rightarrow> nat \<Rightarrow> nat" where
  "diceOf xs k = (if k < length xs then xs ! k else 0)"

definition rifle :: weapon where
  "rifle = \<lparr>name_w = ''Rifle'', count = 5, Range_w = 24, Attacks = 1, AP = 0,
            Furious = False, Predator = False, Deadly = None\<rparr>"

definition blade :: weapon where
  "blade = \<lparr>name_w = ''CombatBlade'', count = 5, Range_w = 0, Attacks = 1, AP = 0,
            Furious = False, Predator = False, Deadly = None\<rparr>"

definition grunts :: "ref list \<Rightarrow> unit_obj" where
  "grunts ws = \<lparr>name = ''Grunts'', numModels = 5, quality = 4, defense = 5, points = 100,
       specialRules = [''Fast''], weapons = ws, toughValue = None, Modifier = None,
       originalNumModels = 0, shaken = False, hasFoughtInMeleeThisTurn = False,
       advanceRange = 0, chargeRange = 0\<rparr>"

definition gruntsState :: state where
  "gruntsState = \<lparr>uobj = (\<lambda>r. if r = 0 then grunts [0, 1] else grunts [2, 3]),
           wobj = (\<lambda>r. if r = 0 \<or> r = 2 then rifle else blade),
           unext = 2, wnext = 4, dice = (\<lambda>k. k * 5 + 3), pos = 0,
           currentDistance = 0, log_lines = []\<rparr>"

text \<open>
  Scouts are Slow and carry a carbine (range 12) before a rifle (range 24). Knights and a
  lone sentry meet in melee with dice that give the knights five hits and the sentry no
  save. Veterans are Fearless, fatigued and at three of five models. A cannon is Deadly(2).
\<close>

definition carbine :: weapon where
  "carbine = \<lparr>name_w = ''Carbine'', count = 5, Range_w = 12, Attacks = 1, AP = 0,
              Furious = False, Predator = False, Deadly = None\<rparr>"

definition scouts :: unit_obj where
  "scouts = \<lparr>name = ''Scouts'', numModels = 5, quality = 4, defense = 5, points = 90,
       specialRules = [''Slow''], weapons = [0, 1], toughValue = None, Modifier = None,
       originalNumModels = 0, shaken = False, hasFoughtInMeleeThisTurn = False,
       advanceRange = 0, chargeRange = 0\<rparr>"

definition scoutsState :: state where
  "scoutsState = \<lparr>uobj = (\<lambda>r. if r = 0 then scouts else grunts [2, 3]),
           wobj = (\<lambda>r. if r = 0 then carbine else if r = 1 \<or> r = 2 then rifle else blade),
           unext = 2, wnext = 4, dice = diceOf [], pos = 0,
           currentDistance = 0, log_lines = []\<rparr>"

definition knights :: unit_obj where
  "knights = \<lparr>name = ''Knights'', numModels = 5, quality = 2, defense = 5, points = 200,
       specialRules = [], weapons = [0], toughValue = None, Modifier = None,
       originalNumModels = 0, shaken = False, hasFoughtInMeleeThisTurn = False,
       advanceRange = 0, chargeRange = 0\<rparr>"

definition sentry :: unit_obj where
  "sentry = \<lparr>name = ''Sentry'', numModels = 1, quality = 4, defense = 5, points = 20,
       specialRules = [], weapons = [1], toughValue = None, Modifier = None,
       originalNumModels = 0, shaken = False, hasFoughtInMeleeThisTurn = False,
       advanceRange = 0, chargeRange = 0\<rparr>"

definition duelState :: state where
  "duelState = \<lparr>uobj = (\<lambda>r. if r = 0 then knights else sentry),
           wobj = (\<lambda>r. blade),
           unext = 2, wnext = 2, dice = diceOf [5, 5, 5, 5, 5], pos = 0,
           currentDistance = 0, log_lines = []\<rparr>"

definition veterans :: unit_obj where
  "veterans = \<lparr>name = ''Veterans'', numModels = 3, quality = 4, defense = 4, points = 150,
       specialRules = [''Fearless''], weapons = [0], toughValue = None, Modifier = None,
       originalNumModels = 5, shaken = False, hasFoughtInMeleeThisTurn = True,
       advanceRange = 6, chargeRange = 12\<rparr>"

definition moraleState :: state where
  "moraleState = \<lparr>uobj = (\<lambda>r. veterans), wobj = (\<lambda>r. blade),
           unext = 1, wnext = 1, dice = diceOf [1, 2], pos = 0,
           currentDistance = 0, log_lines = []\<rparr>"

definition cannon :: weapon where
  "cannon = \<lparr>name_w = ''Cannon'', count = 3, Range_w = 36, Attacks = 1, AP = 0,
             Furious = False, Predator = False, Deadly = Some 2\<rparr>"

definition cannonState :: state where
  "cannonState = \<lparr>uobj = (\<lambda>r. veterans), wobj = (\<lambda>r. cannon),
           unext = 1, wnext = 1, dice = diceOf [5, 5, 5], pos = 0,
           currentDistance = 24, log_lines = []\<rparr>"

text \<open>
  A melee between four reapers, whose first weapon of range 0 is the second of their
  list, a great axe with Deadly(3), and five gunners of toughness 3 who carry no weapon
  of range 0.
\<close>

definition greatAxe :: weapon where
  "greatAxe = \<lparr>name_w = ''GreatAxe'', count = 4, Range_w = 0, Attacks = 1, AP = 0,
               Furious = False, Predator = False, Deadly = Some 3\<rparr>"

definition reapers :: unit_obj where
  "reapers = \<lparr>name = ''Reapers'', numModels = 4, quality = 4, defense = 5, points = 180,
       specialRules = [], weapons = [0, 1], toughValue = None, Modifier = None,
       originalNumModels = 4, shaken = False, hasFoughtInMeleeThisTurn = False,
       advanceRange = 6, chargeRange = 12\<rparr>"

definition gunners :: unit_obj where
  "gunners = \<lparr>name = ''Gunners'', numModels = 5, quality = 4, defense = 5, points = 120,
       specialRules = [], weapons = [0], toughValue = Some 3, Modifier = None,
       originalNumModels = 5, shaken = False, hasFoughtInMeleeThisTurn = False,
       advanceRange = 6, chargeRange = 12\<rparr>"

definition axeState :: state where
  "axeState = \<lparr>uobj = (\<lambda>r. if r = 0 then reapers else gunners),
           wobj = (\<lambda>r. if r = 0 then rifle else greatAxe),
           unext = 2, wnext = 2, dice = diceOf [4, 4, 4, 4, 3], pos = 0,
           currentDistance = 0, log_lines = []\<rparr>"

text \<open>The states after cloning, from which the first turn of an engagement starts.\<close>

definition duelStart :: state where
  "duelStart = snd (startState 0 1 0 duelState)"

definition chargeStart :: state where
  "chargeStart = snd (startState 0 1 12 gruntsState)"

definition holdStart :: state where
  "holdStart = snd (startState 0 1 10 scoutsState)"

text \<open>The number of melee-result lines in a log: one is pushed per melee round.\<close>

definition meleeRounds :: "entry list \<Rightarrow> nat" where
  "meleeRounds lg =
     length (filter (\<lambda>e. case e of MeleeResult u1 k2 u2 k1 \<Rightarrow> True | _ \<Rightarrow> False) lg)"

section \<open>Dice, hits and saves\<close>

lemma rollDie_range: "1 \<le> fst (rollDie s) \<and> fst (rollDie s) \<le> 6"
  by (simp add: rollDie_def)

lemma hitRollLoop_state: "snd (hitRollLoop n t a b s) = s\<lparr>pos := pos s + n\<rparr>"
  by (induction n arbitrary: a b s) (auto simp: rollDie_def)

lemma hitRollLoop_bounds:
  "hitRollLoop n t a b s = ((a', b'), s') \<Longrightarrow>
     a \<le> a' \<and> a' \<le> a + int n \<and> b \<le> b' \<and> b' - b \<le> a' - a"
proof (induction n arbitrary: a b s)
  case 0
  then show ?case by simp
next
  case (Suc n)
  then show ?case
    by (auto simp: rollDie_def split: if_splits dest!: Suc.IH)
qed

lemma defenseRollLoop_state: "snd (defenseRollLoop n t a s) = s\<lparr>pos := pos s + n\<rparr>"
  by (induction n arbitrary: a s) (auto simp: rollDie_def)

lemma defenseRollLoop_bounds:
  "defenseRollLoop n t a s = (a', s') \<Longrightarrow> a \<le> a' \<and> a' \<le> a + int n"
proof (induction n arbitrary: a s)
  case 0
  then show ?case by simp
next
  case (Suc n)
  then show ?case
    by (auto simp: rollDie_def split: if_splits dest!: Suc.IH)
qed

lemma simulateHitRolls_state:
  "simulateHitRolls n q m s = (r, s') \<Longrightarrow> s' = s\<lparr>pos := pos s + nat n\<rparr>"
  using hitRollLoop_state [of "nat n" "q - m" 0 0 s] by (simp add: simulateHitRolls_def)

lemma simulateHitRolls_bounds:
  "simulateHitRolls n q m s = ((a, b), s') \<Longrightarrow> 0 \<le> b \<and> b \<le> a \<and> a \<le> int (nat n)"
  unfolding simulateHitRolls_def by (drule hitRollLoop_bounds) simp

lemma simulateDefenseRolls_state:
  "simulateDefenseRolls n d ap s = (r, s') \<Longrightarrow> s' = s\<lparr>pos := pos s + nat n\<rparr>"
  using defenseRollLoop_state [of "nat n" "d + ap" 0 s] by (simp add: simulateDefenseRolls_def)

lemma simulateDefenseRolls_bounds:
  "simulateDefenseRolls n d ap s = (a, s') \<Longrightarrow> 0 \<le> a \<and> a \<le> int (nat n)"
  unfolding simulateDefenseRolls_def by (drule defenseRollLoop_bounds) simp

lemma calculateHits_result:
  assumes "calculateHits w u n s = ((h, ap), s')"
  shows "0 \<le> h \<and> ap = AP w \<and> (\<exists>k. s' = s\<lparr>pos := pos s + k\<rparr>)"
proof -
  obtain a b s1 where r1:
    "simulateHitRolls (n * Attacks w) (quality u) (case Modifier u of None \<Rightarrow> 0 | Some m \<Rightarrow> m) s = ((a, b), s1)"
    by (metis prod.exhaust)
  have b1: "0 \<le> b \<and> b \<le> a" using simulateHitRolls_bounds [OF r1] by simp
  have st1: "s1 = s\<lparr>pos := pos s + nat (n * Attacks w)\<rparr>"
    using simulateHitRolls_state [OF r1] .
  obtain c d s2 where r2:
    "simulateHitRolls b (quality u) (case Modifier u of None \<Rightarrow> 0 | Some m \<Rightarrow> m) s1 = ((c, d), s2)"
    by (metis prod.exhaust)
  have b2: "0 \<le> c" using simulateHitRolls_bounds [OF r2] by simp
  have st2: "s2 = s1\<lparr>pos := pos s1 + nat b\<rparr>"
    using simulateHitRolls_state [OF r2] .
  have st2': "s2 = s\<lparr>pos := pos s + (nat (n * Attacks w) + nat b)\<rparr>"
    using st1 st2 by simp
  show ?thesis
    using assms r1 r2 b1 b2 st1 st2'
    by (auto simp: calculateHits_def Let_def split: if_splits)
qed

lemma applyDeadly_nonneg: "deadlyOk w \<Longrightarrow> 0 \<le> x \<Longrightarrow> 0 \<le> applyDeadly w x"
  by (auto simp: deadlyOk_def applyDeadly_def split: option.splits)

lemma rangedAttack_result:
  assumes "rangedAttack w a n t d s = (r, s')"
  shows "(\<exists>k. s' = s\<lparr>pos := pos s + k\<rparr>) \<and> (deadlyOk w \<longrightarrow> 0 \<le> totalWounds r)"
proof (cases "d > Range_w w")
  case True
  with assms have "s' = s \<and> totalWounds r = 0" by (auto simp: rangedAttack_def)
  then have "s' = s\<lparr>pos := pos s + 0\<rparr> \<and> totalWounds r = 0" by simp
  then show ?thesis by (metis order_refl)
next
  case False
  obtain h ap s1 where c: "calculateHits w a n s = ((h, ap), s1)" by (metis prod.exhaust)
  obtain sv s2 where dfn: "simulateDefenseRolls h (defense t) ap s1 = (sv, s2)" by (metis prod.exhaust)
  from calculateHits_result [OF c] obtain k where h0: "0 \<le> h" and s1: "s1 = s\<lparr>pos := pos s + k\<rparr>"
    by blast
  have sv: "sv \<le> h" using simulateDefenseRolls_bounds [OF dfn] h0 by simp
  have s2: "s2 = s\<lparr>pos := pos s + (k + nat h)\<rparr>"
    using simulateDefenseRolls_state [OF dfn] s1 by simp
  have r: "r = \<lparr>inRange = True, totalWounds = applyDeadly w (h - sv)\<rparr>" and "s' = s2"
    using assms False c dfn by (auto simp: rangedAttack_def)
  then show ?thesis using s2 sv applyDeadly_nonneg [of w "h - sv"] by auto
qed

lemma meleeWeapon_first:
  assumes "weapons u = before @ r # after" and "\<forall>x \<in> set before. Range_w (W x) \<noteq> 0"
    and "Range_w (W r) = 0"
  shows "meleeWeapon W u = W r"
proof -
  have "find (\<lambda>r. Range_w (W r) = 0) (weapons u) = Some r"
    unfolding assms(1) using assms(2,3) by (induction before) auto
  then show ?thesis by (simp add: meleeWeapon_def)
qed

lemma meleeWeapon_none:
  assumes "\<forall>x \<in> set (weapons u). Range_w (W x) \<noteq> 0"
  shows "meleeWeapon W u = fallbackWeapon"
proof -
  have "find (\<lambda>r. Range_w (W r) = 0) (weapons u) = None"
    using assms by (simp add: find_None_iff)
  then show ?thesis by (simp add: meleeWeapon_def)
qed

lemma meleeWeapon_deadlyOk:
  "list_all (\<lambda>r. deadlyOk (W r)) (weapons u) \<Longrightarrow> deadlyOk (meleeWeapon W u)"
  by (auto simp: meleeWeapon_def fallbackWeapon_def deadlyOk_def list_all_iff
           split: option.splits dest!: find_Some_iff [THEN iffD1] )

lemma meleeResolution_result:
  assumes "meleeResolution a d s = (r, s')"
  shows "(\<exists>k. s' = s\<lparr>pos := pos s + k\<rparr>) \<and>
         (deadlyOk (meleeWeapon (wobj s) a) \<longrightarrow> 0 \<le> totalWoundsToDefender r) \<and>
         (deadlyOk (meleeWeapon (wobj s) d) \<longrightarrow> 0 \<le> totalWoundsToAttacker r)"
proof -
  let ?aw = "meleeWeapon (wobj s) a" and ?dw = "meleeWeapon (wobj s) d"
  obtain ah aap s1 where c1: "calculateHits ?aw (effectiveStats a) (numModels a) s = ((ah, aap), s1)"
    by (metis prod.exhaust)
  obtain dh dap s2 where c2: "calculateHits ?dw (effectiveStats d) (numModels d) s1 = ((dh, dap), s2)"
    by (metis prod.exhaust)
  obtain asv s3 where d1: "simulateDefenseRolls dh (defense a) dap s2 = (asv, s3)"
    by (metis prod.exhaust)
  obtain dsv s4 where d2: "simulateDefenseRolls ah (defense d) aap s3 = (dsv, s4)"
    by (metis prod.exhaust)
  from calculateHits_result [OF c1] obtain k1 where ah: "0 \<le> ah" and s1: "s1 = s\<lparr>pos := pos s + k1\<rparr>"
    by blast
  from calculateHits_result [OF c2] obtain k2 where dh: "0 \<le> dh" and s2: "s2 = s1\<lparr>pos := pos s1 + k2\<rparr>"
    by blast
  have s3: "s3 = s2\<lparr>pos := pos s2 + nat dh\<rparr>" using simulateDefenseRolls_state [OF d1] .
  have s4: "s4 = s3\<lparr>pos := pos s3 + nat ah\<rparr>" using simulateDefenseRolls_state [OF d2] .
  have asv: "asv \<le> dh" using simulateDefenseRolls_bounds [OF d1] dh by simp
  have dsv: "dsv \<le> ah" using simulateDefenseRolls_bounds [OF d2] ah by simp
  have s4': "s4 = s\<lparr>pos := pos s + (k1 + k2 + nat dh + nat ah)\<rparr>"
    using s1 s2 s3 s4 by simp
  have r: "r = \<lparr>totalWoundsToDefender = applyDeadly ?aw (ah - dsv),
                 totalWoundsToAttacker = applyDeadly ?dw (dh - asv)\<rparr>" and e: "s' = s4"
    using assms c1 c2 d1 d2 by (auto simp: meleeResolution_def Let_def)
  show ?thesis
    using r e s4' asv dsv applyDeadly_nonneg [of ?aw "ah - dsv"] applyDeadly_nonneg [of ?dw "dh - asv"]
    by auto
qed

lemma resolvePostCombatMorale_state:
  "resolvePostCombatMorale u n s = (m, s') \<Longrightarrow>
     s' = s\<lparr>pos := pos s + 1\<rparr> \<or> s' = s\<lparr>pos := pos s + 2\<rparr>"
  by (auto simp: resolvePostCombatMorale_def rollDie_def split: if_splits)

section \<open>The invariant of the turn loop\<close>

lemma setUnit_simps:
  "uobj (setUnit r f s) = (uobj s)(r := f (uobj s r))"
  "wobj (setUnit r f s) = wobj s"
  "unext (setUnit r f s) = unext s"
  "wnext (setUnit r f s) = wnext s"
  "dice (setUnit r f s) = dice s"
  "pos (setUnit r f s) = pos s"
  "currentDistance (setUnit r f s) = currentDistance s"
  "log_lines (setUnit r f s) = log_lines s"
  by (simp_all add: setUnit_def)

lemma pushLog_simps:
  "uobj (pushLog e s) = uobj s"
  "wobj (pushLog e s) = wobj s"
  "unext (pushLog e s) = unext s"
  "wnext (pushLog e s) = wnext s"
  "dice (pushLog e s) = dice s"
  "pos (pushLog e s) = pos s"
  "currentDistance (pushLog e s) = currentDistance s"
  "log_lines (pushLog e s) = log_lines s @ [e]"
  by (simp_all add: pushLog_def)

lemma sameProfile_refl: "sameProfile u u"
  by (simp add: sameProfile_def)

lemma sameProfile_trans: "sameProfile u v \<Longrightarrow> sameProfile v w \<Longrightarrow> sameProfile u w"
  unfolding sameProfile_def by (cases u, cases v, cases w) simp

lemma sameProfile_fields:
  "sameProfile u v \<Longrightarrow>
     name v = name u \<and> quality v = quality u \<and> defense v = defense u \<and> points v = points u \<and>
     specialRules v = specialRules u \<and> weapons v = weapons u \<and> toughValue v = toughValue u \<and>
     Modifier v = Modifier u \<and> originalNumModels v = originalNumModels u \<and>
     advanceRange v = advanceRange u \<and> chargeRange v = chargeRange u"
  unfolding sameProfile_def by (cases u, cases v) simp

lemma evolves_refl: "evolves a d s s"
  by (simp add: evolves_def sameProfile_refl)

lemma evolves_trans: "evolves a d s t \<Longrightarrow> evolves a d t u \<Longrightarrow> evolves a d s u"
  unfolding evolves_def by (auto intro: sameProfile_trans order_trans)

lemma evolves_sym_refs: "evolves a d s t \<Longrightarrow> evolves d a s t"
  unfolding evolves_def by auto

lemma inv_sym_refs: "inv a d s \<Longrightarrow> inv d a s"
  unfolding inv_def by auto

lemma evolves_profile: "evolves a d s s' \<Longrightarrow> sameProfile (uobj s r) (uobj s' r)"
  by (simp add: evolves_def)

lemma inv_evolves:
  assumes "inv a d s" and "evolves a d s s'"
  shows "inv a d s'"
proof -
  note fa = sameProfile_fields [OF evolves_profile [OF assms(2), of a]]
  note fd = sameProfile_fields [OF evolves_profile [OF assms(2), of d]]
  have w: "wobj s' = wobj s" using assms(2) by (simp add: evolves_def)
  have n: "0 \<le> numModels (uobj s a) \<longrightarrow> 0 \<le> numModels (uobj s' a)"
    "0 \<le> numModels (uobj s d) \<longrightarrow> 0 \<le> numModels (uobj s' d)"
    "0 \<le> currentDistance s \<longrightarrow> 0 \<le> currentDistance s'"
    using assms(2) by (simp_all add: evolves_def)
  show ?thesis
    using assms(1) n fa fd w by (simp add: inv_def wellFormed_def)
qed

lemma evolves_pos: "evolves a d s (s\<lparr>pos := p\<rparr>)"
  by (simp add: evolves_def sameProfile_refl)

lemma evolves_pushLog: "evolves a d s (pushLog e s)"
  by (simp add: evolves_def sameProfile_refl pushLog_simps)

lemma evolves_dist: "0 \<le> x \<Longrightarrow> evolves a d s (s\<lparr>currentDistance := x\<rparr>)"
  by (simp add: evolves_def sameProfile_refl)

lemma evolves_setUnit:
  "r = a \<or> r = d \<Longrightarrow> sameProfile (uobj s r) (f (uobj s r)) \<Longrightarrow>
   numModels (f (uobj s r)) \<le> numModels (uobj s r) \<Longrightarrow>
   (0 \<le> numModels (uobj s r) \<longrightarrow> 0 \<le> numModels (f (uobj s r))) \<Longrightarrow>
   evolves a d s (setUnit r f s)"
  by (auto simp: evolves_def sameProfile_refl setUnit_simps)

lemma sameProfile_upd:
  "sameProfile u (u\<lparr>numModels := n\<rparr>)"
  "sameProfile u (u\<lparr>shaken := b\<rparr>)"
  "sameProfile u (u\<lparr>hasFoughtInMeleeThisTurn := b\<rparr>)"
  by (simp_all add: sameProfile_def)

lemma toughOr1_pos:
  "(case toughValue u of None \<Rightarrow> True | Some t \<Rightarrow> 0 \<le> t) \<Longrightarrow> 0 < toughOr1 u"
  by (auto simp: toughOr1_def split: option.splits)

lemma kills_nonneg: "0 \<le> w \<Longrightarrow> 0 < t \<Longrightarrow> 0 \<le> w div (t::int)"
  by (simp add: pos_imp_zdiv_nonneg_iff)

lemma applyMeleeKills_uobj:
  "u \<noteq> v \<Longrightarrow>
   uobj (applyMeleeKills r u v s) =
     (uobj s)
       (u := (uobj s u)\<lparr>hasFoughtInMeleeThisTurn := True,
               numModels := max 0 (numModels (uobj s u) - totalWoundsToAttacker r div toughOr1 (uobj s u))\<rparr>,
        v := (uobj s v)\<lparr>hasFoughtInMeleeThisTurn := True,
               numModels := max 0 (numModels (uobj s v) - totalWoundsToDefender r div toughOr1 (uobj s v))\<rparr>)"
  by (auto simp: applyMeleeKills_def Let_def setUnit_simps pushLog_simps toughOr1_def fun_eq_iff)

lemma applyMeleeKills_frame:
  "wobj (applyMeleeKills r u v s) = wobj s"
  "unext (applyMeleeKills r u v s) = unext s"
  "wnext (applyMeleeKills r u v s) = wnext s"
  "dice (applyMeleeKills r u v s) = dice s"
  "pos (applyMeleeKills r u v s) = pos s"
  "currentDistance (applyMeleeKills r u v s) = currentDistance s"
  by (simp_all add: applyMeleeKills_def Let_def setUnit_simps pushLog_simps)

lemma applyMeleeKills_ok:
  assumes "inv u v s" "0 \<le> totalWoundsToDefender r" "0 \<le> totalWoundsToAttacker r"
  shows "evolves u v s (applyMeleeKills r u v s) \<and> inv u v (applyMeleeKills r u v s)"
proof -
  let ?s' = "applyMeleeKills r u v s"
  from assms(1) have ne: "u \<noteq> v" by (simp add: inv_def)
  have tu: "0 < toughOr1 (uobj s u)" and tv: "0 < toughOr1 (uobj s v)"
    using assms(1) by (auto simp: inv_def wellFormed_def intro: toughOr1_pos)
  have ku: "0 \<le> totalWoundsToAttacker r div toughOr1 (uobj s u)"
    using kills_nonneg [OF assms(3) tu] .
  have kv: "0 \<le> totalWoundsToDefender r div toughOr1 (uobj s v)"
    using kills_nonneg [OF assms(2) tv] .
  have nu: "0 \<le> numModels (uobj s u)" and nv: "0 \<le> numModels (uobj s v)"
    using assms(1) by (auto simp: inv_def wellFormed_def)
  have ev: "evolves u v s ?s'"
    using ne ku kv nu nv
    by (auto simp: evolves_def applyMeleeKills_frame applyMeleeKills_uobj sameProfile_def)
  with inv_evolves [OF assms(1)] show ?thesis by simp
qed

lemma applyMorale_ok:
  assumes "inv u v s" "l = None \<or> l = Some u \<or> l = Some v"
  shows "evolves u v s (applyMorale l s)"
proof (cases l)
  case None
  then show ?thesis by (simp add: applyMorale_def evolves_pushLog)
next
  case (Some r)
  with assms(2) have r: "r = u \<or> r = v" by simp
  show ?thesis
  proof (cases "numModels (uobj s r) > 0")
    case False
    with Some show ?thesis by (simp add: applyMorale_def evolves_refl)
  next
    case True
    let ?s1 = "pushLog (LostCombat (name (uobj s r))) s"
    obtain m s2 where m: "resolvePostCombatMorale (uobj ?s1 r) (originalNumModels (uobj ?s1 r)) ?s1 = (m, s2)"
      by (metis prod.exhaust)
    have e1: "evolves u v s ?s1" by (rule evolves_pushLog)
    have e2: "evolves u v ?s1 s2"
      using resolvePostCombatMorale_state [OF m] evolves_pos [of u v ?s1] by auto
    have e12: "evolves u v s s2" by (rule evolves_trans [OF e1 e2])
    have n2: "numModels (uobj s2 r) > 0"
      using resolvePostCombatMorale_state [OF m] True by (auto simp: pushLog_simps)
    have res: "applyMorale l s =
       (case m of
          PASS \<Rightarrow> pushLog (PassedMorale (name (uobj s2 r))) s2
        | SHAKEN \<Rightarrow> pushLog (IsShaken (name (uobj s2 r))) (setUnit r (\<lambda>u. u\<lparr>shaken := True\<rparr>) s2)
        | RETREAT \<Rightarrow> setUnit r (\<lambda>u. u\<lparr>numModels := 0\<rparr>) (pushLog (Retreats (name (uobj s2 r))) s2))"
      using Some True m by (simp add: applyMorale_def Let_def)
    show ?thesis
    proof (cases m)
      case PASS
      then show ?thesis using res evolves_trans [OF e12 evolves_pushLog] by simp
    next
      case SHAKEN
      have "evolves u v s2 (setUnit r (\<lambda>u. u\<lparr>shaken := True\<rparr>) s2)"
        by (rule evolves_setUnit [OF r]) (simp_all add: sameProfile_upd)
      then show ?thesis
        using res SHAKEN evolves_trans [OF e12] evolves_trans [OF _ evolves_pushLog] by simp
    next
      case RETREAT
      let ?s3 = "pushLog (Retreats (name (uobj s2 r))) s2"
      have "evolves u v ?s3 (setUnit r (\<lambda>u. u\<lparr>numModels := 0\<rparr>) ?s3)"
        by (rule evolves_setUnit [OF r]) (use n2 in \<open>simp_all add: sameProfile_upd pushLog_simps\<close>)
      then show ?thesis
        using res RETREAT evolves_trans [OF evolves_trans [OF e12 evolves_pushLog]] by simp
    qed
  qed
qed

lemma handleMeleeRound_ok:
  assumes "inv u v s"
  shows "evolves u v s (handleMeleeRound u v s)"
proof -
  obtain r s1 where m: "meleeResolution (uobj s u) (uobj s v) s = (r, s1)" by (metis prod.exhaust)
  have dk: "deadlyOk (meleeWeapon (wobj s) (uobj s u))" "deadlyOk (meleeWeapon (wobj s) (uobj s v))"
    using assms by (auto simp: inv_def wellFormed_def intro: meleeWeapon_deadlyOk)
  from meleeResolution_result [OF m] dk obtain k where
    s1: "s1 = s\<lparr>pos := pos s + k\<rparr>" and w: "0 \<le> totalWoundsToDefender r" "0 \<le> totalWoundsToAttacker r"
    by blast
  have e1: "evolves u v s s1" using s1 evolves_pos by simp
  have i1: "inv u v s1" by (rule inv_evolves [OF assms e1])
  note k = applyMeleeKills_ok [OF i1 w]
  have l: "meleeLoser r u v = None \<or> meleeLoser r u v = Some u \<or> meleeLoser r u v = Some v"
    by (simp add: meleeLoser_def)
  have e3: "evolves u v (applyMeleeKills r u v s1) (applyMorale (meleeLoser r u v) (applyMeleeKills r u v s1))"
    by (rule applyMorale_ok [OF conjunct2 [OF k] l])
  have "handleMeleeRound u v s = applyMorale (meleeLoser r u v) (applyMeleeKills r u v s1)"
    using m by (simp add: handleMeleeRound_def)
  then show ?thesis
    using evolves_trans [OF evolves_trans [OF e1 conjunct1 [OF k]] e3] by simp
qed

lemma advanceMove_ok:
  assumes "inv u v s"
  shows "evolves u v s (advanceMove u i s)"
proof -
  have a: "0 \<le> advanceRange (uobj s u)" and d: "0 \<le> currentDistance s"
    using assms by (simp_all add: inv_def)
  have "evolves u v s (s\<lparr>currentDistance := currentDistance s + advanceRange (uobj s u)\<rparr>)"
    by (rule evolves_dist) (use a d in simp)
  moreover have "evolves u v s (s\<lparr>currentDistance := max 0 (currentDistance s - advanceRange (uobj s u))\<rparr>)"
    by (rule evolves_dist) simp
  ultimately show ?thesis
    by (auto simp: advanceMove_def intro: evolves_trans [OF _ evolves_pushLog])
qed

lemma fireRanged_ok:
  assumes "inv u v s"
  shows "evolves u v s (fireRanged u v s)"
proof (cases "find (\<lambda>w. Range_w (wobj s w) > 0 \<and> Range_w (wobj s w) \<ge> currentDistance s)
                (weapons (uobj s u))")
  case None
  then show ?thesis by (simp add: fireRanged_def evolves_refl)
next
  case (Some rw)
  then have "rw \<in> set (weapons (uobj s u))" by (auto simp: find_Some_iff)
  then have dk: "deadlyOk (wobj s rw)"
    using assms by (auto simp: inv_def wellFormed_def list_all_iff)
  obtain r s1 where ra:
    "rangedAttack (wobj s rw) (uobj s u) (numModels (uobj s u)) (uobj s v) (currentDistance s) s = (r, s1)"
    by (metis prod.exhaust)
  from rangedAttack_result [OF ra] dk obtain k where
    s1: "s1 = s\<lparr>pos := pos s + k\<rparr>" and w: "0 \<le> totalWounds r" by blast
  have e1: "evolves u v s s1" using s1 evolves_pos by simp
  have i1: "inv u v s1" by (rule inv_evolves [OF assms e1])
  have t: "0 < toughOr1 (uobj s1 v)" and n: "0 \<le> numModels (uobj s1 v)"
    using i1 by (auto simp: inv_def wellFormed_def intro: toughOr1_pos)
  let ?kills = "min (numModels (uobj s1 v)) (totalWounds r div toughOr1 (uobj s1 v))"
  have k0: "0 \<le> ?kills" using kills_nonneg [OF w t] n by simp
  let ?s2 = "setUnit v (\<lambda>x. x\<lparr>numModels := numModels x - ?kills\<rparr>) s1"
  have e2: "evolves u v s1 ?s2"
    by (rule evolves_setUnit) (use k0 in \<open>simp_all add: sameProfile_upd\<close>)
  have "fireRanged u v s = pushLog (WeaponKills (name_w (wobj ?s2 rw)) ?kills) ?s2"
    using Some ra by (simp add: fireRanged_def Let_def)
  then show ?thesis
    using evolves_trans [OF evolves_trans [OF e1 e2] evolves_pushLog] by simp
qed

lemma unitActs_ok:
  assumes "inv u v s"
  shows "evolves u v s (snd (unitActs u v s))"
proof -
  let ?d = "decideAction (wobj s) (uobj s u) (uobj s v) (currentDistance s)"
  have idle: "evolves u v s (setUnit u (\<lambda>x. x\<lparr>shaken := False\<rparr>) (pushLog (Idles (name (uobj s u))) s))"
    by (rule evolves_trans [OF evolves_pushLog])
       (rule evolves_setUnit, simp_all add: sameProfile_upd pushLog_simps)
  have mr: "evolves u v s (handleMeleeRound u v s')" if "evolves u v s s'" for s'
    using evolves_trans [OF that handleMeleeRound_ok [OF inv_evolves [OF assms that]]] .
  have fr: "evolves u v s (fireRanged u v s')" if "evolves u v s s'" for s'
    using evolves_trans [OF that fireRanged_ok [OF inv_evolves [OF assms that]]] .
  have charge: "evolves u v s (handleMeleeRound u v
                    (pushLog (Charges (name (uobj s u)) (name (uobj s v))) (s\<lparr>currentDistance := 0\<rparr>)))"
    by (rule mr, rule evolves_trans [OF evolves_dist evolves_pushLog]) simp
  have fight: "evolves u v s (handleMeleeRound u v (pushLog (Fights (name (uobj s u)) (name (uobj s v))) s))"
    by (rule mr, rule evolves_pushLog)
  have hold: "evolves u v s (fireRanged u v (pushLog (HoldsAndShoots (name (uobj s u))) s))"
    by (rule fr, rule evolves_pushLog)
  have adv: "evolves u v s (fireRanged u v (advanceMove u (currentDistance s) s))"
    by (rule fr, rule advanceMove_ok [OF assms])
  have rush: "evolves u v s (pushLog (Rushes (name (uobj s u)) (chargeRange (uobj s u)))
                 (s\<lparr>currentDistance := max 0 (currentDistance s - chargeRange (uobj s u))\<rparr>))"
    by (rule evolves_trans [OF evolves_dist evolves_pushLog]) simp
  show ?thesis
    using idle charge fight hold adv rush
    by (cases ?d) (simp_all add: unitActs_def Let_def)
qed

lemma firstAction_ok:
  assumes "inv a d s"
  shows "evolves a d s (snd (firstAction a d s))"
  using unitActs_ok [OF assms] by (simp add: firstAction_def evolves_refl)

lemma actInOrder_ok:
  assumes "inv a d s"
  shows "evolves a d s (actInOrder a d s)"
proof -
  obtain c s1 where c: "firstAction a d s = (c, s1)"
    by (metis prod.exhaust)
  have e1: "evolves a d s s1"
    using c firstAction_ok [OF assms] by simp
  have i1: "inv d a s1" by (rule inv_sym_refs [OF inv_evolves [OF assms e1]])
  have e2: "evolves a d s1 (snd (unitActs d a s1))"
    by (rule evolves_sym_refs [OF unitActs_ok [OF i1]])
  show ?thesis
    using c e1 evolves_trans [OF e1 e2] by (simp add: actInOrder_def)
qed

lemma turnStart_ok: "evolves a d s (turnStart a d t s)"
proof -
  let ?s1 = "pushLog (TurnHeader t) s"
  let ?s2 = "setUnit a (\<lambda>u. u\<lparr>hasFoughtInMeleeThisTurn := False\<rparr>) ?s1"
  let ?s3 = "setUnit d (\<lambda>u. u\<lparr>hasFoughtInMeleeThisTurn := False\<rparr>) ?s2"
  have e2: "evolves a d ?s1 ?s2" by (rule evolves_setUnit) (simp_all add: sameProfile_upd)
  have e3: "evolves a d ?s2 ?s3" by (rule evolves_setUnit) (simp_all add: sameProfile_upd)
  have "evolves a d s ?s3" by (rule evolves_trans [OF evolves_trans [OF evolves_pushLog e2] e3])
  then show ?thesis by (simp add: turnStart_def Let_def)
qed

lemma playTurn_ok:
  assumes "inv a d s"
  shows "evolves a d s (playTurn af a d t s)"
proof -
  let ?s3 = "turnStart a d t s"
  have e: "evolves a d s ?s3" by (rule turnStart_ok)
  have i: "inv a d ?s3" by (rule inv_evolves [OF assms e])
  have "evolves a d ?s3 (actInOrder a d ?s3)" by (rule actInOrder_ok [OF i])
  moreover have "evolves a d ?s3 (actInOrder d a ?s3)"
    by (rule evolves_sym_refs [OF actInOrder_ok [OF inv_sym_refs [OF i]]])
  ultimately show ?thesis
    using evolves_trans [OF e] by (simp add: playTurn_def Let_def)
qed

section \<open>Cloning\<close>

lemma cloneWeapons_result:
  "cloneWeapons ws s = (rs, s') \<Longrightarrow>
     s' = s\<lparr>wobj := wobj s', wnext := wnext s + length ws\<rparr> \<and>
     (\<forall>r < wnext s. wobj s' r = wobj s r) \<and>
     (\<forall>r \<in> set rs. wnext s \<le> r \<and> r < wnext s + length ws) \<and>
     (list_all (\<lambda>w. w < wnext s) ws \<longrightarrow> map (wobj s') rs = map (wobj s) ws)"
proof (induction ws arbitrary: s rs s')
  case Nil
  then show ?case by auto
next
  case (Cons w ws)
  let ?s1 = "s\<lparr>wobj := (wobj s)(wnext s := wobj s w), wnext := wnext s + 1\<rparr>"
  obtain rs1 s2 where c: "cloneWeapons ws ?s1 = (rs1, s2)" by (metis prod.exhaust)
  from Cons.prems c have rs: "rs = wnext s # rs1" and s': "s' = s2"
    by (auto simp: Let_def)
  note ih = Cons.IH [OF c]
  have a: "s' = s\<lparr>wobj := wobj s', wnext := wnext s + length (w # ws)\<rparr>"
    using ih s' by (cases s, cases s') auto
  have b: "\<forall>r < wnext s. wobj s' r = wobj s r"
    using ih s' by auto
  have c': "\<forall>r \<in> set rs. wnext s \<le> r \<and> r < wnext s + length (w # ws)"
    using ih rs by auto
  have d: "map (wobj s') rs = map (wobj s) (w # ws)" if al: "list_all (\<lambda>w. w < wnext s) (w # ws)"
  proof -
    have "list_all (\<lambda>w. w < wnext ?s1) ws" using al by (auto simp: list_all_iff)
    with ih have "map (wobj s2) rs1 = map (wobj ?s1) ws" by simp
    also have "\<dots> = map (wobj s) ws" using al by (auto simp: list_all_iff)
    finally have m: "map (wobj s') rs1 = map (wobj s) ws" using s' by simp
    have "wobj s' (wnext s) = wobj ?s1 (wnext s)" using ih s' by simp
    then show ?thesis using m rs by simp
  qed
  show ?case using a b c' d by blast
qed

lemma cloneUnit_result:
  assumes "cloneUnit u s = (r, s')"
  shows "r = unext s \<and> unext s' = unext s + 1 \<and> wnext s \<le> wnext s' \<and>
         dice s' = dice s \<and> pos s' = pos s \<and> currentDistance s' = currentDistance s \<and>
         log_lines s' = log_lines s \<and>
         (\<forall>x. x \<noteq> unext s \<longrightarrow> uobj s' x = uobj s x) \<and>
         (\<forall>w < wnext s. wobj s' w = wobj s w) \<and>
         originalNumModels (uobj s' r) = numModels (uobj s u) \<and>
         \<not> shaken (uobj s' r) \<and> \<not> hasFoughtInMeleeThisTurn (uobj s' r) \<and>
         name (uobj s' r) = name (uobj s u) \<and> quality (uobj s' r) = quality (uobj s u) \<and>
         defense (uobj s' r) = defense (uobj s u) \<and>
         specialRules (uobj s' r) = specialRules (uobj s u) \<and>
         Modifier (uobj s' r) = Modifier (uobj s u) \<and>
         numModels (uobj s' r) = numModels (uobj s u) \<and>
         toughValue (uobj s' r) = toughValue (uobj s u) \<and>
         (\<forall>w \<in> set (weapons (uobj s' r)). wnext s \<le> w \<and> w < wnext s') \<and>
         (list_all (\<lambda>w. w < wnext s) (weapons (uobj s u)) \<longrightarrow>
            map (wobj s') (weapons (uobj s' r)) = map (wobj s) (weapons (uobj s u)))"
proof -
  obtain ws s1 where c: "cloneWeapons (weapons (uobj s u)) s = (ws, s1)" by (metis prod.exhaust)
  note cw = cloneWeapons_result [OF c]
  have s1: "uobj s1 = uobj s" "unext s1 = unext s" "dice s1 = dice s" "pos s1 = pos s"
    "currentDistance s1 = currentDistance s" "log_lines s1 = log_lines s"
    "wnext s1 = wnext s + length (weapons (uobj s u))"
    using conjunct1 [OF cw] by (cases s, cases s1, simp)+
  have r: "r = unext s" and s': "s' = s1\<lparr>uobj := (uobj s1)(unext s1 := (uobj s1 u)
                        \<lparr>numModels := numModels (uobj s1 u),
                         originalNumModels := numModels (uobj s1 u),
                         shaken := False,
                         hasFoughtInMeleeThisTurn := False,
                         weapons := ws\<rparr>),
                    unext := unext s1 + 1\<rparr>"
    using assms c s1 by (auto simp: cloneUnit_def Let_def)
  show ?thesis
    using cw unfolding r s' by (simp add: s1)
qed

lemma list_all_map_eq:
  "map f xs = map g ys \<Longrightarrow> list_all (\<lambda>r. P (f r)) xs = list_all (\<lambda>r. P (g r)) ys"
proof -
  assume m: "map f xs = map g ys"
  have "list_all (\<lambda>r. P (f r)) xs = list_all P (map f xs)" by (simp add: list_all_iff)
  also have "\<dots> = list_all P (map g ys)" using m by simp
  also have "\<dots> = list_all (\<lambda>r. P (g r)) ys" by (simp add: list_all_iff)
  finally show ?thesis .
qed

lemma setRanges_simps:
  "uobj (setRanges r s) =
     (uobj s)(r := (uobj s r)
        \<lparr>advanceRange := (if ''Fast'' \<in> set (specialRules (uobj s r)) then 8
                          else if ''Slow'' \<in> set (specialRules (uobj s r)) then 4 else 6),
         chargeRange := (if ''Fast'' \<in> set (specialRules (uobj s r)) then 16
                         else if ''Slow'' \<in> set (specialRules (uobj s r)) then 8 else 12)\<rparr>)"
  "wobj (setRanges r s) = wobj s"
  "unext (setRanges r s) = unext s"
  "wnext (setRanges r s) = wnext s"
  "dice (setRanges r s) = dice s"
  "pos (setRanges r s) = pos s"
  by (simp_all add: setRanges_def Let_def setUnit_simps fun_eq_iff)

lemma startState_result:
  assumes "startState A B d0 s = ((a, b), s0)"
  shows "a = unext s \<and> b = unext s + 1 \<and>
         (\<forall>x < unext s. uobj s0 x = uobj s x) \<and> (\<forall>w < wnext s. wobj s0 w = wobj s w) \<and>
         dice s0 = dice s \<and> pos s0 = pos s \<and> currentDistance s0 = d0 \<and> log_lines s0 = [] \<and>
         (\<forall>w \<in> set (weapons (uobj s0 a)) \<union> set (weapons (uobj s0 b)). wnext s \<le> w) \<and>
         numModels (uobj s0 a) = numModels (uobj s A) \<and>
         (allocated s A \<and> allocated s B \<and> wellFormed (wobj s) (uobj s A) \<and>
          wellFormed (wobj s) (uobj s B) \<and> 0 \<le> d0 \<longrightarrow>
            inv a b s0 \<and> numModels (uobj s0 b) = numModels (uobj s B))"
proof -
  obtain a' s1 where c1: "cloneUnit A s = (a', s1)" by (metis prod.exhaust)
  obtain b' s2 where c2: "cloneUnit B s1 = (b', s2)" by (metis prod.exhaust)
  note r1 = cloneUnit_result [OF c1]
  note r2 = cloneUnit_result [OF c2]
  have ab: "a = unext s" "b = unext s + 1" "a' = a" "b' = b"
    and s0: "s0 = (setRanges b (setRanges a s2))\<lparr>currentDistance := d0, log_lines := []\<rparr>"
    using assms c1 c2 r1 r2 by (auto simp: startState_def)
  have ua2: "uobj s2 a = uobj s1 a" using r1 r2 ab by simp
  have wa: "weapons (uobj s0 a) = weapons (uobj s1 a)" "numModels (uobj s0 a) = numModels (uobj s1 a)"
    "toughValue (uobj s0 a) = toughValue (uobj s1 a)"
    using ab ua2 unfolding s0 by (simp_all add: setRanges_simps)
  have wb: "weapons (uobj s0 b) = weapons (uobj s2 b)" "numModels (uobj s0 b) = numModels (uobj s2 b)"
    "toughValue (uobj s0 b) = toughValue (uobj s2 b)"
    using ab unfolding s0 by (simp_all add: setRanges_simps)
  have adv: "0 \<le> advanceRange (uobj s0 a)" "0 \<le> advanceRange (uobj s0 b)"
    using ab unfolding s0 by (simp_all add: setRanges_simps)
  have other: "\<forall>x < unext s. uobj s0 x = uobj s x"
    using r1 r2 ab unfolding s0 by (simp add: setRanges_simps)
  have w0: "wobj s0 = wobj s2" unfolding s0 by (simp add: setRanges_simps)
  have wframe: "\<forall>w < wnext s. wobj s0 w = wobj s w"
    using r1 r2 w0 by simp
  have misc: "dice s0 = dice s \<and> pos s0 = pos s \<and> currentDistance s0 = d0 \<and> log_lines s0 = []"
    using r1 r2 unfolding s0 by (simp add: setRanges_simps)
  have fresh: "\<forall>w \<in> set (weapons (uobj s0 a)) \<union> set (weapons (uobj s0 b)). wnext s \<le> w"
    using r1 r2 ab wa wb by fastforce
  have na: "numModels (uobj s0 a) = numModels (uobj s A)"
    using r1 ab wa by simp
  have main: "inv a b s0 \<and> numModels (uobj s0 b) = numModels (uobj s B)"
    if h: "allocated s A" "allocated s B" "wellFormed (wobj s) (uobj s A)"
      "wellFormed (wobj s) (uobj s B)" "0 \<le> d0"
  proof -
    have B1: "uobj s1 B = uobj s B" using r1 h(2) by (simp add: allocated_def)
    have alB: "list_all (\<lambda>w. w < wnext s1) (weapons (uobj s1 B))"
      using h(2) r1 B1 by (auto simp: allocated_def list_all_iff)
    have mA: "map (wobj s1) (weapons (uobj s1 a)) = map (wobj s) (weapons (uobj s A))"
      using r1 h(1) ab by (simp add: allocated_def)
    have "map (wobj s2) (weapons (uobj s1 a)) = map (wobj s1) (weapons (uobj s1 a))"
      using r1 r2 ab by simp
    with mA have mA2: "map (wobj s0) (weapons (uobj s0 a)) = map (wobj s) (weapons (uobj s A))"
      using w0 wa by simp
    have "map (wobj s2) (weapons (uobj s2 b)) = map (wobj s1) (weapons (uobj s1 B))"
      using r2 [unfolded ab(4)] alB by blast
    also have "\<dots> = map (wobj s) (weapons (uobj s B))"
      using B1 r1 h(2) by (simp add: allocated_def list_all_iff)
    finally have mB2: "map (wobj s0) (weapons (uobj s0 b)) = map (wobj s) (weapons (uobj s B))"
      using w0 wb by simp
    have fa: "numModels (uobj s1 a) = numModels (uobj s A) \<and> toughValue (uobj s1 a) = toughValue (uobj s A)"
      using r1 [unfolded ab(3)] by blast
    have fb: "numModels (uobj s2 b) = numModels (uobj s B) \<and> toughValue (uobj s2 b) = toughValue (uobj s B)"
      using r2 [unfolded ab(4)] B1 by metis
    have wfa: "wellFormed (wobj s0) (uobj s0 a)"
      using h(3) fa wa list_all_map_eq [OF mA2, of deadlyOk] by (simp add: wellFormed_def)
    have wfb: "wellFormed (wobj s0) (uobj s0 b)"
      using h(4) fb wb list_all_map_eq [OF mB2, of deadlyOk] by (simp add: wellFormed_def)
    show ?thesis
      using wfa wfb adv ab misc h(5) fb wb by (simp add: inv_def)
  qed
  show ?thesis using ab other wframe misc fresh na main by blast
qed

section \<open>What a run writes\<close>

lemma writesOnly_refl: "writesOnly a d s s"
  by (simp add: writesOnly_def)

lemma writesOnly_trans: "writesOnly a d s t \<Longrightarrow> writesOnly a d t u \<Longrightarrow> writesOnly a d s u"
  by (simp add: writesOnly_def)

lemma writesOnly_sym_refs: "writesOnly a d s t \<Longrightarrow> writesOnly d a s t"
  by (simp add: writesOnly_def)

lemma writesOnly_basic:
  "writesOnly a d s (s\<lparr>pos := p\<rparr>)"
  "writesOnly a d s (pushLog e s)"
  "writesOnly a d s (s\<lparr>currentDistance := x\<rparr>)"
  "writesOnly a d s (setUnit a f s)"
  "writesOnly a d s (setUnit d f s)"
  by (simp_all add: writesOnly_def pushLog_simps setUnit_simps)

lemma applyMeleeKills_writes: "writesOnly u v s (applyMeleeKills r u v s)"
  by (simp add: applyMeleeKills_def Let_def writesOnly_def setUnit_simps pushLog_simps)

lemma applyMorale_writes:
  assumes "l = None \<or> l = Some u \<or> l = Some v"
  shows "writesOnly u v s (applyMorale l s)"
proof (cases l)
  case None
  then show ?thesis by (simp add: applyMorale_def writesOnly_basic)
next
  case (Some r)
  with assms have r: "r = u \<or> r = v" by simp
  let ?s1 = "pushLog (LostCombat (name (uobj s r))) s"
  obtain m s2 where m: "resolvePostCombatMorale (uobj ?s1 r) (originalNumModels (uobj ?s1 r)) ?s1 = (m, s2)"
    by (metis prod.exhaust)
  have e2: "writesOnly u v s s2"
    using resolvePostCombatMorale_state [OF m]
    by (auto simp: writesOnly_def pushLog_simps)
  have w: "writesOnly u v s (setUnit r f t)" if "writesOnly u v s t" for f t
    using that r by (auto simp: writesOnly_def setUnit_simps)
  have p: "writesOnly u v s (pushLog e t)" if "writesOnly u v s t" for e t
    using that by (auto simp: writesOnly_def pushLog_simps)
  show ?thesis
  proof (cases "numModels (uobj s r) > 0")
    case False
    with Some show ?thesis by (simp add: applyMorale_def writesOnly_refl)
  next
    case True
    have res: "applyMorale l s =
       (case m of
          PASS \<Rightarrow> pushLog (PassedMorale (name (uobj s2 r))) s2
        | SHAKEN \<Rightarrow> pushLog (IsShaken (name (uobj s2 r))) (setUnit r (\<lambda>u. u\<lparr>shaken := True\<rparr>) s2)
        | RETREAT \<Rightarrow> setUnit r (\<lambda>u. u\<lparr>numModels := 0\<rparr>) (pushLog (Retreats (name (uobj s2 r))) s2))"
      using Some True m by (simp add: applyMorale_def Let_def)
    show ?thesis
      unfolding res by (cases m) (simp_all add: w p e2)
  qed
qed

lemma handleMeleeRound_writes: "writesOnly u v s (handleMeleeRound u v s)"
proof -
  obtain r s1 where m: "meleeResolution (uobj s u) (uobj s v) s = (r, s1)" by (metis prod.exhaust)
  from meleeResolution_result [OF m] obtain k where s1: "s1 = s\<lparr>pos := pos s + k\<rparr>" by blast
  have e1: "writesOnly u v s s1" using s1 by (simp add: writesOnly_basic)
  have l: "meleeLoser r u v = None \<or> meleeLoser r u v = Some u \<or> meleeLoser r u v = Some v"
    by (simp add: meleeLoser_def)
  have "handleMeleeRound u v s = applyMorale (meleeLoser r u v) (applyMeleeKills r u v s1)"
    using m by (simp add: handleMeleeRound_def)
  then show ?thesis
    using writesOnly_trans [OF writesOnly_trans [OF e1 applyMeleeKills_writes] applyMorale_writes [OF l]]
    by simp
qed

lemma advanceMove_writes: "writesOnly u v s (advanceMove u i s)"
  by (simp add: advanceMove_def writesOnly_def pushLog_simps)

lemma fireRanged_writes: "writesOnly u v s (fireRanged u v s)"
proof (cases "find (\<lambda>w. Range_w (wobj s w) > 0 \<and> Range_w (wobj s w) \<ge> currentDistance s)
                (weapons (uobj s u))")
  case None
  then show ?thesis by (simp add: fireRanged_def writesOnly_refl)
next
  case (Some rw)
  obtain r s1 where ra:
    "rangedAttack (wobj s rw) (uobj s u) (numModels (uobj s u)) (uobj s v) (currentDistance s) s = (r, s1)"
    by (metis prod.exhaust)
  from rangedAttack_result [OF ra] obtain k where s1: "s1 = s\<lparr>pos := pos s + k\<rparr>" by blast
  show ?thesis
    using Some ra s1
    by (simp add: fireRanged_def Let_def writesOnly_def pushLog_simps setUnit_simps)
qed

lemma unitActs_writes: "writesOnly u v s (snd (unitActs u v s))"
proof -
  let ?d = "decideAction (wobj s) (uobj s u) (uobj s v) (currentDistance s)"
  have mr: "writesOnly u v s (handleMeleeRound u v s')" if "writesOnly u v s s'" for s'
    using writesOnly_trans [OF that handleMeleeRound_writes] .
  have fr: "writesOnly u v s (fireRanged u v s')" if "writesOnly u v s s'" for s'
    using writesOnly_trans [OF that fireRanged_writes] .
  have b: "writesOnly u v s (pushLog e (s\<lparr>currentDistance := x\<rparr>))" for e x
    by (simp add: writesOnly_def pushLog_simps)
  have i: "writesOnly u v s (setUnit u f (pushLog e s))" for e f
    by (simp add: writesOnly_def pushLog_simps setUnit_simps)
  have charge: "writesOnly u v s (handleMeleeRound u v
                    (pushLog (Charges (name (uobj s u)) (name (uobj s v))) (s\<lparr>currentDistance := 0\<rparr>)))"
    by (rule mr, rule b)
  have fight: "writesOnly u v s (handleMeleeRound u v (pushLog (Fights (name (uobj s u)) (name (uobj s v))) s))"
    by (rule mr, rule writesOnly_basic)
  have hold: "writesOnly u v s (fireRanged u v (pushLog (HoldsAndShoots (name (uobj s u))) s))"
    by (rule fr, rule writesOnly_basic)
  have adv: "writesOnly u v s (fireRanged u v (advanceMove u (currentDistance s) s))"
    by (rule fr, rule advanceMove_writes)
  show ?thesis
    using charge fight hold adv b i
    by (cases ?d) (simp_all add: unitActs_def Let_def)
qed

lemma actInOrder_writes: "writesOnly a d s (actInOrder a d s)"
proof -
  obtain c s1 where c: "firstAction a d s = (c, s1)"
    by (metis prod.exhaust)
  have e1: "writesOnly a d s s1"
    using c unitActs_writes [of a d s] writesOnly_refl [of a d s]
    by (auto simp: firstAction_def split: if_splits)
  have e2: "writesOnly a d s1 (snd (unitActs d a s1))"
    by (rule writesOnly_sym_refs [OF unitActs_writes])
  show ?thesis
    using c e1 writesOnly_trans [OF e1 e2] by (simp add: actInOrder_def)
qed

lemma playTurn_writes: "writesOnly a d s (playTurn af a d t s)"
proof -
  let ?s3 = "turnStart a d t s"
  have e: "writesOnly a d s ?s3"
    by (simp add: turnStart_def Let_def writesOnly_def pushLog_simps setUnit_simps)
  show ?thesis
    using writesOnly_trans [OF e actInOrder_writes]
      writesOnly_trans [OF e writesOnly_sym_refs [OF actInOrder_writes]]
    by (simp add: playTurn_def Let_def)
qed

section \<open>The states at the head of the turn loop\<close>

lemma turnLoop_trace:
  "turnLoop af a d t s =
     (t + int (length (turnTrace af a d t s)) - 1, last (turnTrace af a d t s))"
proof (induction af a d t s rule: turnLoop.induct)
  case (1 af a d t s)
  show ?case
  proof (cases "t \<le> 4 \<and> \<not> (numModels (uobj s a) \<le> 0 \<or> numModels (uobj s d) \<le> 0)")
    case False
    then have "turnLoop af a d t s = (t, s)" "turnTrace af a d t s = [s]"
      by (subst turnLoop.simps, auto)[1] (subst turnTrace.simps, use False in auto)
    then show ?thesis by simp
  next
    case True
    let ?s' = "playTurn af a d t s"
    have l: "turnLoop af a d t s = turnLoop af a d (t + 1) ?s'"
      by (subst turnLoop.simps) (use True in simp)
    have tr: "turnTrace af a d t s = s # turnTrace af a d (t + 1) ?s'"
      by (subst turnTrace.simps) (use True in simp)
    have ne: "turnTrace af a d (t + 1) ?s' \<noteq> []"
      by (subst turnTrace.simps) simp
    have "turnLoop af a d (t + 1) ?s' =
            (t + 1 + int (length (turnTrace af a d (t + 1) ?s')) - 1,
             last (turnTrace af a d (t + 1) ?s'))"
      using True by (intro "1.IH") auto
    then show ?thesis using l tr ne by simp
  qed
qed

lemma turnTrace_length:
  "1 \<le> length (turnTrace af a d t s) \<and> int (length (turnTrace af a d t s)) \<le> max 1 (6 - t)"
proof (induction af a d t s rule: turnTrace.induct)
  case (1 af a d t s)
  show ?case
  proof (cases "t \<le> 4 \<and> \<not> (numModels (uobj s a) \<le> 0 \<or> numModels (uobj s d) \<le> 0)")
    case False
    then have "turnTrace af a d t s = [s]" by (subst turnTrace.simps) auto
    then show ?thesis by simp
  next
    case True
    let ?s' = "playTurn af a d t s"
    have tr: "turnTrace af a d t s = s # turnTrace af a d (t + 1) ?s'"
      by (subst turnTrace.simps) (use True in simp)
    have "1 \<le> length (turnTrace af a d (t + 1) ?s') \<and>
          int (length (turnTrace af a d (t + 1) ?s')) \<le> max 1 (6 - (t + 1))"
      using True by (intro "1.IH") auto
    then show ?thesis using tr True by auto
  qed
qed

lemma turnTrace_stop:
  "(\<forall>i < length (turnTrace af a d t s) - 1.
      0 < numModels (uobj (turnTrace af a d t s ! i) a) \<and>
      0 < numModels (uobj (turnTrace af a d t s ! i) d)) \<and>
   (t \<le> 5 \<longrightarrow>
      t + int (length (turnTrace af a d t s)) - 1 = 5 \<or>
      numModels (uobj (last (turnTrace af a d t s)) a) \<le> 0 \<or>
      numModels (uobj (last (turnTrace af a d t s)) d) \<le> 0)"
proof (induction af a d t s rule: turnTrace.induct)
  case (1 af a d t s)
  show ?case
  proof (cases "t \<le> 4 \<and> \<not> (numModels (uobj s a) \<le> 0 \<or> numModels (uobj s d) \<le> 0)")
    case False
    then have "turnTrace af a d t s = [s]" by (subst turnTrace.simps) auto
    then show ?thesis using False by auto
  next
    case True
    let ?s' = "playTurn af a d t s"
    let ?tr = "turnTrace af a d (t + 1) ?s'"
    have tr: "turnTrace af a d t s = s # ?tr"
      by (subst turnTrace.simps) (use True in simp)
    have ne: "?tr \<noteq> []" by (subst turnTrace.simps) simp
    have ih: "(\<forall>i < length ?tr - 1.
                 0 < numModels (uobj (?tr ! i) a) \<and> 0 < numModels (uobj (?tr ! i) d)) \<and>
              (t + 1 \<le> 5 \<longrightarrow> t + 1 + int (length ?tr) - 1 = 5 \<or>
                 numModels (uobj (last ?tr) a) \<le> 0 \<or> numModels (uobj (last ?tr) d) \<le> 0)"
      using True by (intro "1.IH") auto
    have alive: "0 < numModels (uobj ((s # ?tr) ! i) a) \<and> 0 < numModels (uobj ((s # ?tr) ! i) d)"
      if "i < length (s # ?tr) - 1" for i
      using that ih True by (cases i) auto
    show ?thesis unfolding tr using alive ih ne True by auto
  qed
qed

lemma turnTrace_chain:
  "inv a d s \<Longrightarrow>
     (\<forall>st \<in> set (turnTrace af a d t s). evolves a d s st) \<and>
     sorted_wrt (evolves a d) (turnTrace af a d t s)"
proof (induction af a d t s rule: turnTrace.induct)
  case (1 af a d t s)
  show ?case
  proof (cases "t \<le> 4 \<and> \<not> (numModels (uobj s a) \<le> 0 \<or> numModels (uobj s d) \<le> 0)")
    case False
    then have "turnTrace af a d t s = [s]" by (subst turnTrace.simps) auto
    then show ?thesis by (simp add: evolves_refl)
  next
    case True
    let ?s' = "playTurn af a d t s"
    let ?tr = "turnTrace af a d (t + 1) ?s'"
    have tr: "turnTrace af a d t s = s # ?tr"
      by (subst turnTrace.simps) (use True in simp)
    have e: "evolves a d s ?s'" by (rule playTurn_ok [OF "1.prems"])
    have ih: "(\<forall>st \<in> set ?tr. evolves a d ?s' st) \<and> sorted_wrt (evolves a d) ?tr"
      using True by (intro "1.IH" inv_evolves [OF "1.prems" e]) auto
    then have "\<forall>st \<in> set ?tr. evolves a d s st"
      using evolves_trans [OF e] by blast
    then show ?thesis unfolding tr using ih by (simp add: evolves_refl)
  qed
qed

lemma turnTrace_writes:
  "\<forall>st \<in> set (turnTrace af a d t s). writesOnly a d s st"
proof (induction af a d t s rule: turnTrace.induct)
  case (1 af a d t s)
  show ?case
  proof (cases "t \<le> 4 \<and> \<not> (numModels (uobj s a) \<le> 0 \<or> numModels (uobj s d) \<le> 0)")
    case False
    then have "turnTrace af a d t s = [s]" by (subst turnTrace.simps) auto
    then show ?thesis by (simp add: writesOnly_refl)
  next
    case True
    let ?s' = "playTurn af a d t s"
    let ?tr = "turnTrace af a d (t + 1) ?s'"
    have tr: "turnTrace af a d t s = s # ?tr"
      by (subst turnTrace.simps) (use True in simp)
    have ih: "\<forall>st \<in> set ?tr. writesOnly a d ?s' st"
      using True by (intro "1.IH") auto
    then have "\<forall>st \<in> set ?tr. writesOnly a d s st"
      using writesOnly_trans [OF playTurn_writes] by blast
    then show ?thesis unfolding tr by (simp add: writesOnly_refl)
  qed
qed

section \<open>Evaluating concrete runs\<close>

text \<open>
  The loops are defined by recursion on \<open>Suc\<close>; these two equations unfold them at a
  numeral, so that the simplifier can run the model on concrete data.
\<close>

lemma hitRollLoop_numeral:
  "hitRollLoop (numeral k) target successes sixes s =
     (case rollDie s of (roll, s') \<Rightarrow>
        if roll = 1 then hitRollLoop (pred_numeral k) target successes sixes s'
        else if roll = 6 then hitRollLoop (pred_numeral k) target (successes + 1) (sixes + 1) s'
        else if roll \<ge> target then hitRollLoop (pred_numeral k) target (successes + 1) sixes s'
        else hitRollLoop (pred_numeral k) target successes sixes s')"
  by (simp add: numeral_eq_Suc)

lemma defenseRollLoop_numeral:
  "defenseRollLoop (numeral k) target successes s =
     (case rollDie s of (roll, s') \<Rightarrow>
        if roll = 1 then defenseRollLoop (pred_numeral k) target successes s'
        else if roll = 6 then defenseRollLoop (pred_numeral k) target (successes + 1) s'
        else if roll \<ge> target then defenseRollLoop (pred_numeral k) target (successes + 1) s'
        else defenseRollLoop (pred_numeral k) target successes s')"
  by (simp add: numeral_eq_Suc)

lemmas run_defs =
  simulateHitRolls_def hitRollLoop_numeral simulateDefenseRolls_def defenseRollLoop_numeral
  rollDie_def calculateHits_def applyDeadly_def rangedAttack_def fallbackWeapon_def
  meleeWeapon_def effectiveQuality_def effectiveStats_def meleeResolution_def
  resolvePostCombatMorale_def estimateMeleeEffectiveness_def getSuccessChance_def
  decideAction_def setUnit_def pushLog_def toughOr1_def cloneUnit_def setRanges_def
  applyMeleeKills_def meleeLoser_def applyMorale_def handleMeleeRound_def advanceMove_def
  fireRanged_def unitActs_def firstAction_def actInOrder_def turnStart_def playTurn_def
  startState_def simulateRangedExchangeUntilMelee_def turnLoop.simps Let_def diceOf_def

lemmas example_defs =
  gruntsState_def grunts_def rifle_def blade_def carbine_def scouts_def scoutsState_def
  knights_def sentry_def duelState_def veterans_def moraleState_def cannon_def cannonState_def
  duelStart_def chargeStart_def holdStart_def greatAxe_def reapers_def gunners_def axeState_def

lemma inBounds_evolves:
  assumes "inv a d s" and "evolves a d s st"
  shows "inBounds a d (numModels (uobj s a)) (numModels (uobj s d)) st"
  using assms by (simp add: inBounds_def inv_def evolves_def wellFormed_def)

section \<open>Weapon selection, fatigue and the log of a melee round\<close>

lemma find_first:
  "P x \<Longrightarrow> \<forall>y \<in> set xs. \<not> P y \<Longrightarrow> find P (xs @ x # ys) = Some x"
  by (induction xs) auto

lemma find_split:
  "\<exists>y \<in> set zs. P y \<Longrightarrow> \<exists>xs x ys. zs = xs @ x # ys \<and> P x \<and> (\<forall>y \<in> set xs. \<not> P y)"
  using split_list_first_prop [of zs P] by blast

lemma hitRollLoop_only_sixes:
  "6 \<le> t \<Longrightarrow> hitRollLoop n t a b s = ((a', b'), s') \<Longrightarrow> a' - a = b' - b"
proof (induction n arbitrary: a b s)
  case 0
  then show ?case by simp
next
  case (Suc n)
  have "int (dice s (pos s) mod 6) + 1 \<le> 6" by (simp add: Suc_le_eq)
  with Suc.prems show ?case
    by (auto simp: rollDie_def split: if_splits dest!: Suc.IH [OF Suc.prems(1)])
qed

lemma applyMorale_log:
  "meleeRounds (log_lines (applyMorale l s)) = meleeRounds (log_lines s) \<and>
   currentDistance (applyMorale l s) = currentDistance s"
proof (cases l)
  case None
  then show ?thesis by (simp add: applyMorale_def pushLog_simps meleeRounds_def)
next
  case (Some r)
  let ?s1 = "pushLog (LostCombat (name (uobj s r))) s"
  obtain m s2 where m: "resolvePostCombatMorale (uobj ?s1 r) (originalNumModels (uobj ?s1 r)) ?s1 = (m, s2)"
    by (metis prod.exhaust)
  have "log_lines s2 = log_lines s @ [LostCombat (name (uobj s r))] \<and>
        currentDistance s2 = currentDistance s"
    using resolvePostCombatMorale_state [OF m] by (auto simp: pushLog_simps)
  then show ?thesis
    using Some m
    by (cases m) (auto simp: applyMorale_def Let_def pushLog_simps setUnit_simps meleeRounds_def)
qed

lemma handleMeleeRound_log:
  "meleeRounds (log_lines (handleMeleeRound u v s)) = meleeRounds (log_lines s) + 1 \<and>
   currentDistance (handleMeleeRound u v s) = currentDistance s"
proof -
  obtain r s1 where m: "meleeResolution (uobj s u) (uobj s v) s = (r, s1)" by (metis prod.exhaust)
  from meleeResolution_result [OF m] obtain k where s1: "s1 = s\<lparr>pos := pos s + k\<rparr>" by blast
  have k: "meleeRounds (log_lines (applyMeleeKills r u v s1)) = meleeRounds (log_lines s) + 1 \<and>
           currentDistance (applyMeleeKills r u v s1) = currentDistance s"
    using s1 by (simp add: applyMeleeKills_def Let_def pushLog_simps setUnit_simps meleeRounds_def)
  show ?thesis
    using m k applyMorale_log [of "meleeLoser r u v" "applyMeleeKills r u v s1"]
    by (simp add: handleMeleeRound_def)
qed

section \<open>Properties of the probability primitive\<close>

text \<open>
  C8. \<^verbatim>\<open>getSuccessChance\<close> is 5/6 for every target at most 2, (6 - target + 1)/6 for a
  target between 2 and 6, and 1/6 for every target above 6; it does not increase as the
  target grows from 2 to 6, and it always lies between 1/6 and 5/6, hence between 0
  and 1.
\<close>

theorem getSuccessChance_table:
  "(t \<le> 2 \<longrightarrow> getSuccessChance t = 5 / 6) \<and>
   (2 \<le> t \<and> t \<le> 6 \<longrightarrow> getSuccessChance t = (6 - t + 1) / 6) \<and>
   (6 < t \<longrightarrow> getSuccessChance t = 1 / 6) \<and>
   (2 \<le> t \<and> t \<le> t' \<and> t' \<le> 6 \<longrightarrow> getSuccessChance t' \<le> getSuccessChance t) \<and>
   1 / 6 \<le> getSuccessChance t \<and> getSuccessChance t \<le> 5 / 6 \<and>
   0 \<le> getSuccessChance t \<and> getSuccessChance t \<le> 1"
  by (simp add: getSuccessChance_def Let_def)

theorem getSuccessChance_table_witness:
  "getSuccessChance 1 = 5 / 6 \<and> getSuccessChance 2 = 5 / 6 \<and>
   getSuccessChance 4 = 1 / 2 \<and> getSuccessChance 7 = 1 / 6 \<and>
   getSuccessChance 5 \<le> getSuccessChance 3"
  using getSuccessChance_table [of 1 1] getSuccessChance_table [of 2 2]
    getSuccessChance_table [of 4 4] getSuccessChance_table [of 7 7]
    getSuccessChance_table [of 3 5]
  by simp

section \<open>Properties of the combat resolver\<close>

text \<open>
  C9. In a ranged attack that is in range, the wounds are the hit count minus the
  successful saves, multiplied by \<open>n\<close> when the weapon carries Deadly(\<open>n\<close>) (the field is
  present and, as the source tests it, not 0) and left as they are when it carries none.
  In a melee each side strikes with the first weapon of its own weapon list that has
  range 0, or, when its list has none, with the default weapon of 1 attack, AP 0 and no
  Deadly; the wounds a side inflicts are its hits minus the other side's saves,
  multiplied by the Deadly value of the weapon that side strikes with. The kills of a
  melee round between two distinct units are the wounds of the melee result divided by
  the toughness of the unit that suffers them, rounded down, and a unit's model count
  does not go below 0. A Deadly(2) weapon with 3 net wounds gives 6.
\<close>

theorem wounds_are_hits_minus_saves_times_deadly:
  "(case calculateHits w attackerStats nModels s of
      ((hits, ap), s1) \<Rightarrow>
    case simulateDefenseRolls hits (defense targetStats) ap s1 of
      (saves, s2) \<Rightarrow>
        distanceToTarget \<le> Range_w w \<longrightarrow>
          rangedAttack w attackerStats nModels targetStats distanceToTarget s =
            (\<lparr>inRange = True, totalWounds = applyDeadly w (hits - saves)\<rparr>, s2) \<and>
          (\<forall>n. Deadly w = Some n \<and> n \<noteq> 0 \<longrightarrow>
             totalWounds (fst (rangedAttack w attackerStats nModels targetStats distanceToTarget s))
               = (hits - saves) * n) \<and>
          (Deadly w = None \<or> Deadly w = Some 0 \<longrightarrow>
             totalWounds (fst (rangedAttack w attackerStats nModels targetStats distanceToTarget s))
               = hits - saves)) \<and>
   (let strikesWith = (\<lambda>u wp.
          (\<exists>before r after. weapons u = before @ r # after \<and>
             (\<forall>x \<in> set before. Range_w (wobj s x) \<noteq> 0) \<and> Range_w (wobj s r) = 0 \<and>
             wp = wobj s r) \<or>
          ((\<forall>x \<in> set (weapons u). Range_w (wobj s x) \<noteq> 0) \<and> wp = fallbackWeapon))
    in strikesWith attacker attackerWeapon \<and> strikesWith defender defenderWeapon \<longrightarrow>
       (case calculateHits attackerWeapon (effectiveStats attacker) (numModels attacker) s of
          ((attackerHits, attackerAp), s1) \<Rightarrow>
        case calculateHits defenderWeapon (effectiveStats defender) (numModels defender) s1 of
          ((defenderHits, defenderAp), s2) \<Rightarrow>
        case simulateDefenseRolls defenderHits (defense attacker) defenderAp s2 of
          (attackerSaves, s3) \<Rightarrow>
        case simulateDefenseRolls attackerHits (defense defender) attackerAp s3 of
          (defenderSaves, s4) \<Rightarrow>
            meleeResolution attacker defender s =
              (\<lparr>totalWoundsToDefender = applyDeadly attackerWeapon (attackerHits - defenderSaves),
                totalWoundsToAttacker = applyDeadly defenderWeapon (defenderHits - attackerSaves)\<rparr>,
               s4) \<and>
            (\<forall>n. Deadly attackerWeapon = Some n \<and> n \<noteq> 0 \<longrightarrow>
               totalWoundsToDefender (fst (meleeResolution attacker defender s)) =
                 (attackerHits - defenderSaves) * n) \<and>
            (Deadly attackerWeapon = None \<or> Deadly attackerWeapon = Some 0 \<longrightarrow>
               totalWoundsToDefender (fst (meleeResolution attacker defender s)) =
                 attackerHits - defenderSaves) \<and>
            (\<forall>n. Deadly defenderWeapon = Some n \<and> n \<noteq> 0 \<longrightarrow>
               totalWoundsToAttacker (fst (meleeResolution attacker defender s)) =
                 (defenderHits - attackerSaves) * n) \<and>
            (Deadly defenderWeapon = None \<or> Deadly defenderWeapon = Some 0 \<longrightarrow>
               totalWoundsToAttacker (fst (meleeResolution attacker defender s)) =
                 defenderHits - attackerSaves))) \<and>
   Attacks fallbackWeapon = 1 \<and> AP fallbackWeapon = 0 \<and> Deadly fallbackWeapon = None \<and>
   \<not> Furious fallbackWeapon \<and> \<not> Predator fallbackWeapon \<and>
   (unit1 \<noteq> unit2 \<longrightarrow>
      numModels (uobj (applyMeleeKills meleeResult unit1 unit2 s) unit2) =
        max 0 (numModels (uobj s unit2) -
               totalWoundsToDefender meleeResult div toughOr1 (uobj s unit2)) \<and>
      numModels (uobj (applyMeleeKills meleeResult unit1 unit2 s) unit1) =
        max 0 (numModels (uobj s unit1) -
               totalWoundsToAttacker meleeResult div toughOr1 (uobj s unit1))) \<and>
   (\<forall>n. Deadly w = Some n \<and> n \<noteq> 0 \<longrightarrow> applyDeadly w x = x * n) \<and>
   (Deadly w = None \<longrightarrow> applyDeadly w x = x) \<and>
   (Deadly w = Some 2 \<longrightarrow> applyDeadly w 3 = 6)"
proof -
  let ?strikes = "\<lambda>u wp.
          (\<exists>before r after. weapons u = before @ r # after \<and>
             (\<forall>x \<in> set before. Range_w (wobj s x) \<noteq> 0) \<and> Range_w (wobj s r) = 0 \<and>
             wp = wobj s r) \<or>
          ((\<forall>x \<in> set (weapons u). Range_w (wobj s x) \<noteq> 0) \<and> wp = fallbackWeapon)"
  have mw: "meleeWeapon (wobj s) u = wp" if "?strikes u wp" for u wp
    using that meleeWeapon_first [of u _ _ _ "wobj s"] meleeWeapon_none [of u "wobj s"]
    by blast
  have ranged: "case calculateHits w attackerStats nModels s of
      ((hits, ap), s1) \<Rightarrow>
    case simulateDefenseRolls hits (defense targetStats) ap s1 of
      (saves, s2) \<Rightarrow>
        distanceToTarget \<le> Range_w w \<longrightarrow>
          rangedAttack w attackerStats nModels targetStats distanceToTarget s =
            (\<lparr>inRange = True, totalWounds = applyDeadly w (hits - saves)\<rparr>, s2) \<and>
          (\<forall>n. Deadly w = Some n \<and> n \<noteq> 0 \<longrightarrow>
             totalWounds (fst (rangedAttack w attackerStats nModels targetStats distanceToTarget s))
               = (hits - saves) * n) \<and>
          (Deadly w = None \<or> Deadly w = Some 0 \<longrightarrow>
             totalWounds (fst (rangedAttack w attackerStats nModels targetStats distanceToTarget s))
               = hits - saves)"
    by (auto simp: rangedAttack_def applyDeadly_def Let_def split_beta)
  have melee: "case calculateHits attackerWeapon (effectiveStats attacker) (numModels attacker) s of
          ((attackerHits, attackerAp), s1) \<Rightarrow>
        case calculateHits defenderWeapon (effectiveStats defender) (numModels defender) s1 of
          ((defenderHits, defenderAp), s2) \<Rightarrow>
        case simulateDefenseRolls defenderHits (defense attacker) defenderAp s2 of
          (attackerSaves, s3) \<Rightarrow>
        case simulateDefenseRolls attackerHits (defense defender) attackerAp s3 of
          (defenderSaves, s4) \<Rightarrow>
            meleeResolution attacker defender s =
              (\<lparr>totalWoundsToDefender = applyDeadly attackerWeapon (attackerHits - defenderSaves),
                totalWoundsToAttacker = applyDeadly defenderWeapon (defenderHits - attackerSaves)\<rparr>,
               s4) \<and>
            (\<forall>n. Deadly attackerWeapon = Some n \<and> n \<noteq> 0 \<longrightarrow>
               totalWoundsToDefender (fst (meleeResolution attacker defender s)) =
                 (attackerHits - defenderSaves) * n) \<and>
            (Deadly attackerWeapon = None \<or> Deadly attackerWeapon = Some 0 \<longrightarrow>
               totalWoundsToDefender (fst (meleeResolution attacker defender s)) =
                 attackerHits - defenderSaves) \<and>
            (\<forall>n. Deadly defenderWeapon = Some n \<and> n \<noteq> 0 \<longrightarrow>
               totalWoundsToAttacker (fst (meleeResolution attacker defender s)) =
                 (defenderHits - attackerSaves) * n) \<and>
            (Deadly defenderWeapon = None \<or> Deadly defenderWeapon = Some 0 \<longrightarrow>
               totalWoundsToAttacker (fst (meleeResolution attacker defender s)) =
                 defenderHits - attackerSaves)"
    if "?strikes attacker attackerWeapon" "?strikes defender defenderWeapon"
    using mw [OF that(1)] mw [OF that(2)]
    by (auto simp: meleeResolution_def applyDeadly_def Let_def split_beta)
  have kills: "numModels (uobj (applyMeleeKills meleeResult unit1 unit2 s) unit2) =
        max 0 (numModels (uobj s unit2) -
               totalWoundsToDefender meleeResult div toughOr1 (uobj s unit2)) \<and>
      numModels (uobj (applyMeleeKills meleeResult unit1 unit2 s) unit1) =
        max 0 (numModels (uobj s unit1) -
               totalWoundsToAttacker meleeResult div toughOr1 (uobj s unit1))"
    if "unit1 \<noteq> unit2"
    using that by (simp add: applyMeleeKills_uobj)
  have melee': "?strikes attacker attackerWeapon \<and> ?strikes defender defenderWeapon \<longrightarrow>
       (case calculateHits attackerWeapon (effectiveStats attacker) (numModels attacker) s of
          ((attackerHits, attackerAp), s1) \<Rightarrow>
        case calculateHits defenderWeapon (effectiveStats defender) (numModels defender) s1 of
          ((defenderHits, defenderAp), s2) \<Rightarrow>
        case simulateDefenseRolls defenderHits (defense attacker) defenderAp s2 of
          (attackerSaves, s3) \<Rightarrow>
        case simulateDefenseRolls attackerHits (defense defender) attackerAp s3 of
          (defenderSaves, s4) \<Rightarrow>
            meleeResolution attacker defender s =
              (\<lparr>totalWoundsToDefender = applyDeadly attackerWeapon (attackerHits - defenderSaves),
                totalWoundsToAttacker = applyDeadly defenderWeapon (defenderHits - attackerSaves)\<rparr>,
               s4) \<and>
            (\<forall>n. Deadly attackerWeapon = Some n \<and> n \<noteq> 0 \<longrightarrow>
               totalWoundsToDefender (fst (meleeResolution attacker defender s)) =
                 (attackerHits - defenderSaves) * n) \<and>
            (Deadly attackerWeapon = None \<or> Deadly attackerWeapon = Some 0 \<longrightarrow>
               totalWoundsToDefender (fst (meleeResolution attacker defender s)) =
                 attackerHits - defenderSaves) \<and>
            (\<forall>n. Deadly defenderWeapon = Some n \<and> n \<noteq> 0 \<longrightarrow>
               totalWoundsToAttacker (fst (meleeResolution attacker defender s)) =
                 (defenderHits - attackerSaves) * n) \<and>
            (Deadly defenderWeapon = None \<or> Deadly defenderWeapon = Some 0 \<longrightarrow>
               totalWoundsToAttacker (fst (meleeResolution attacker defender s)) =
                 defenderHits - attackerSaves))"
    using melee by (intro impI) (elim conjE)
  have kills': "unit1 \<noteq> unit2 \<longrightarrow>
      numModels (uobj (applyMeleeKills meleeResult unit1 unit2 s) unit2) =
        max 0 (numModels (uobj s unit2) -
               totalWoundsToDefender meleeResult div toughOr1 (uobj s unit2)) \<and>
      numModels (uobj (applyMeleeKills meleeResult unit1 unit2 s) unit1) =
        max 0 (numModels (uobj s unit1) -
               totalWoundsToAttacker meleeResult div toughOr1 (uobj s unit1))"
    using kills by (rule impI)
  show ?thesis
    unfolding Let_def
    by (intro conjI ranged melee' kills') (simp_all add: fallbackWeapon_def applyDeadly_def)
qed


theorem wounds_are_hits_minus_saves_times_deadly_witness:
  "(24::int) \<le> Range_w cannon \<and> Deadly cannon = Some 2 \<and> (2::int) \<noteq> 0 \<and>
   calculateHits cannon veterans 3 cannonState = ((3, 0), cannonState\<lparr>pos := 3\<rparr>) \<and>
   simulateDefenseRolls 3 (defense veterans) 0 (cannonState\<lparr>pos := 3\<rparr>) =
     (0, cannonState\<lparr>pos := 6\<rparr>) \<and>
   rangedAttack cannon veterans 3 veterans 24 cannonState =
     (\<lparr>inRange = True, totalWounds = 6\<rparr>, cannonState\<lparr>pos := 6\<rparr>) \<and>
   applyDeadly cannon 3 = 3 * 2 \<and>
   map (wobj axeState) (weapons reapers) = [rifle, greatAxe] \<and>
   map (wobj axeState) (weapons gunners) = [rifle] \<and>
   Range_w rifle = 24 \<and> Range_w greatAxe = 0 \<and> Deadly greatAxe = Some 3 \<and>
   calculateHits greatAxe (effectiveStats reapers) (numModels reapers) axeState =
     ((4, 0), axeState\<lparr>pos := 4\<rparr>) \<and>
   calculateHits fallbackWeapon (effectiveStats gunners) (numModels gunners)
       (axeState\<lparr>pos := 4\<rparr>) = ((1, 0), axeState\<lparr>pos := 9\<rparr>) \<and>
   simulateDefenseRolls 1 (defense reapers) 0 (axeState\<lparr>pos := 9\<rparr>) =
     (0, axeState\<lparr>pos := 10\<rparr>) \<and>
   simulateDefenseRolls 4 (defense gunners) 0 (axeState\<lparr>pos := 10\<rparr>) =
     (0, axeState\<lparr>pos := 14\<rparr>) \<and>
   meleeResolution reapers gunners axeState =
     (\<lparr>totalWoundsToDefender = 12, totalWoundsToAttacker = 1\<rparr>, axeState\<lparr>pos := 14\<rparr>) \<and>
   toughOr1 gunners = 3 \<and> toughOr1 reapers = 1 \<and>
   numModels (uobj (applyMeleeKills \<lparr>totalWoundsToDefender = 12, totalWoundsToAttacker = 1\<rparr>
                      0 1 axeState) 1) = 1 \<and>
   numModels (uobj (applyMeleeKills \<lparr>totalWoundsToDefender = 12, totalWoundsToAttacker = 1\<rparr>
                      0 1 axeState) 0) = 3 \<and>
   log_lines (handleMeleeRound 0 1 axeState) =
     [MeleeResult ''Reapers'' 4 ''Gunners'' 1, LostCombat ''Gunners'', Retreats ''Gunners'']"
proof -
  have h: "(24::int) \<le> Range_w cannon" "Deadly cannon = Some 2" "(2::int) \<noteq> 0"
    by (simp_all add: example_defs)
  have e: "calculateHits cannon veterans 3 cannonState = ((3, 0), cannonState\<lparr>pos := 3\<rparr>)"
    "simulateDefenseRolls 3 (defense veterans) 0 (cannonState\<lparr>pos := 3\<rparr>) =
       (0, cannonState\<lparr>pos := 6\<rparr>)"
    by (simp_all add: run_defs example_defs)
  note t = wounds_are_hits_minus_saves_times_deadly
    [where w = cannon and attackerStats = veterans and nModels = 3 and s = cannonState
       and targetStats = veterans and distanceToTarget = 24 and x = 3]
  have d: "applyDeadly cannon 3 = 3 * 2"
    using t [THEN conjunct2, THEN conjunct2, THEN conjunct2, THEN conjunct2, THEN conjunct2,
             THEN conjunct2, THEN conjunct2, THEN conjunct2, THEN conjunct1, THEN spec, of 2]
      h(2,3)
    by simp
  have "rangedAttack cannon veterans 3 veterans 24 cannonState =
     (\<lparr>inRange = True, totalWounds = applyDeadly cannon (3 - 0)\<rparr>, cannonState\<lparr>pos := 6\<rparr>)"
    using t [THEN conjunct1, unfolded e prod.case, THEN mp, OF h(1)] by (rule conjunct1)
  then have r: "rangedAttack cannon veterans 3 veterans 24 cannonState =
     (\<lparr>inRange = True, totalWounds = 6\<rparr>, cannonState\<lparr>pos := 6\<rparr>)"
    using d by simp
  have m: "map (wobj axeState) (weapons reapers) = [rifle, greatAxe]"
    "map (wobj axeState) (weapons gunners) = [rifle]"
    "Range_w rifle = 24" "Range_w greatAxe = 0" "Deadly greatAxe = Some 3"
    by (simp_all add: example_defs)
  have sa: "(\<exists>before r after. weapons reapers = before @ r # after \<and>
             (\<forall>x \<in> set before. Range_w (wobj axeState x) \<noteq> 0) \<and>
             Range_w (wobj axeState r) = 0 \<and> greatAxe = wobj axeState r) \<or>
          ((\<forall>x \<in> set (weapons reapers). Range_w (wobj axeState x) \<noteq> 0) \<and>
           greatAxe = fallbackWeapon)"
    by (rule disjI1, rule exI [of _ "[0]"], rule exI [of _ "Suc 0"], rule exI [of _ "[]"])
       (simp add: example_defs)
  have sd: "(\<exists>before r after. weapons gunners = before @ r # after \<and>
             (\<forall>x \<in> set before. Range_w (wobj axeState x) \<noteq> 0) \<and>
             Range_w (wobj axeState r) = 0 \<and> fallbackWeapon = wobj axeState r) \<or>
          ((\<forall>x \<in> set (weapons gunners). Range_w (wobj axeState x) \<noteq> 0) \<and>
           fallbackWeapon = fallbackWeapon)"
    by (rule disjI2) (simp add: example_defs)
  have c: "calculateHits greatAxe (effectiveStats reapers) (numModels reapers) axeState =
     ((4, 0), axeState\<lparr>pos := 4\<rparr>)"
   "calculateHits fallbackWeapon (effectiveStats gunners) (numModels gunners)
       (axeState\<lparr>pos := 4\<rparr>) = ((1, 0), axeState\<lparr>pos := 9\<rparr>)"
   "simulateDefenseRolls 1 (defense reapers) 0 (axeState\<lparr>pos := 9\<rparr>) =
     (0, axeState\<lparr>pos := 10\<rparr>)"
   "simulateDefenseRolls 4 (defense gunners) 0 (axeState\<lparr>pos := 10\<rparr>) =
     (0, axeState\<lparr>pos := 14\<rparr>)"
    by (simp_all add: run_defs example_defs)
  note u = wounds_are_hits_minus_saves_times_deadly
    [where s = axeState and attacker = reapers and defender = gunners
       and attackerWeapon = greatAxe and defenderWeapon = fallbackWeapon
       and ?unit1.0 = 0 and ?unit2.0 = "Suc 0"
       and meleeResult = "\<lparr>totalWoundsToDefender = 12, totalWoundsToAttacker = 1\<rparr>"]
  note u2 = u [THEN conjunct2, THEN conjunct1, unfolded Let_def, THEN mp, OF conjI [OF sa sd],
               unfolded c prod.case]
  have "meleeResolution reapers gunners axeState =
     (\<lparr>totalWoundsToDefender = applyDeadly greatAxe (4 - 0),
       totalWoundsToAttacker = applyDeadly fallbackWeapon (1 - 0)\<rparr>, axeState\<lparr>pos := 14\<rparr>)"
    using u2 by (rule conjunct1)
  moreover have "applyDeadly greatAxe (4 - 0) = 12" "applyDeadly fallbackWeapon (1 - 0) = 1"
    by (simp_all add: applyDeadly_def greatAxe_def fallbackWeapon_def)
  ultimately have mr: "meleeResolution reapers gunners axeState =
     (\<lparr>totalWoundsToDefender = 12, totalWoundsToAttacker = 1\<rparr>, axeState\<lparr>pos := 14\<rparr>)"
    by simp
  have tg: "toughOr1 gunners = 3" "toughOr1 reapers = 1"
    by (simp_all add: toughOr1_def example_defs)
  have k: "numModels (uobj (applyMeleeKills \<lparr>totalWoundsToDefender = 12, totalWoundsToAttacker = 1\<rparr>
                      0 1 axeState) 1) = 1"
    "numModels (uobj (applyMeleeKills \<lparr>totalWoundsToDefender = 12, totalWoundsToAttacker = 1\<rparr>
                      0 1 axeState) 0) = 3"
    using u [THEN conjunct2, THEN conjunct2, THEN conjunct2, THEN conjunct2, THEN conjunct2,
             THEN conjunct2, THEN conjunct2, THEN conjunct1]
    by (simp_all add: toughOr1_def example_defs)
  have l: "log_lines (handleMeleeRound 0 1 axeState) =
     [MeleeResult ''Reapers'' 4 ''Gunners'' 1, LostCombat ''Gunners'', Retreats ''Gunners'']"
    by (simp add: run_defs example_defs)
  show ?thesis by (rule conjI h e r d m c mr tg k l)+
qed

text \<open>
  C3, as the code has it. A side that already fought in melee this turn has its effective
  quality forced to 6 (not 7); a side that has not uses its own quality. Melee
  resolution and the estimator read quality and fatigue only through this effective
  quality. With no positive hit modifier, a fatigued side hits on natural sixes only,
  and the estimator gives it the hit chance 1/6.
\<close>

theorem fatigue_forces_quality_six:
  "(hasFoughtInMeleeThisTurn u \<longrightarrow> effectiveQuality u = 6) \<and>
   (\<not> hasFoughtInMeleeThisTurn u \<longrightarrow> effectiveQuality u = quality u) \<and>
   effectiveStats u = u\<lparr>quality := effectiveQuality u\<rparr> \<and>
   meleeResolution u v s =
     meleeResolution (u\<lparr>quality := effectiveQuality u, hasFoughtInMeleeThisTurn := False\<rparr>)
                     (v\<lparr>quality := effectiveQuality v, hasFoughtInMeleeThisTurn := False\<rparr>) s \<and>
   estimateMeleeEffectiveness W u v =
     estimateMeleeEffectiveness W
       (u\<lparr>quality := effectiveQuality u, hasFoughtInMeleeThisTurn := False\<rparr>)
       (v\<lparr>quality := effectiveQuality v, hasFoughtInMeleeThisTurn := False\<rparr>) \<and>
   (hasFoughtInMeleeThisTurn u \<and> modifier \<le> 0 \<longrightarrow>
      fst (fst (simulateHitRolls numDice (effectiveQuality u) modifier s)) =
      snd (fst (simulateHitRolls numDice (effectiveQuality u) modifier s))) \<and>
   (hasFoughtInMeleeThisTurn u \<longrightarrow>
      getSuccessChance (real_of_int (effectiveQuality u)) = 1 / 6)"
proof -
  have six: "fst (fst (simulateHitRolls numDice (effectiveQuality u) modifier s)) =
             snd (fst (simulateHitRolls numDice (effectiveQuality u) modifier s))"
    if "hasFoughtInMeleeThisTurn u" "modifier \<le> 0"
  proof -
    obtain a b s' where h: "hitRollLoop (nat numDice) (6 - modifier) 0 0 s = ((a, b), s')"
      by (metis prod.exhaust)
    have "a - 0 = b - 0" by (rule hitRollLoop_only_sixes [OF _ h]) (use that in simp)
    then show ?thesis using h that by (simp add: simulateHitRolls_def effectiveQuality_def)
  qed
  define u' where "u' = u\<lparr>quality := effectiveQuality u, hasFoughtInMeleeThisTurn := False\<rparr>"
  define v' where "v' = v\<lparr>quality := effectiveQuality v, hasFoughtInMeleeThisTurn := False\<rparr>"
  have same: "meleeWeapon X u' = meleeWeapon X u" "meleeWeapon X v' = meleeWeapon X v"
    "numModels u' = numModels u" "numModels v' = numModels v"
    "defense u' = defense u" "defense v' = defense v"
    "effectiveQuality u' = effectiveQuality u" "effectiveQuality v' = effectiveQuality v" for X
    by (simp_all add: u'_def v'_def meleeWeapon_def effectiveQuality_def)
  have c: "calculateHits w (effectiveStats u') n t = calculateHits w (effectiveStats u) n t"
    "calculateHits w (effectiveStats v') n t = calculateHits w (effectiveStats v) n t" for w n t
    by (simp_all add: calculateHits_def effectiveStats_def effectiveQuality_def u'_def v'_def
          cong: if_cong)
  have mr: "meleeResolution u v s = meleeResolution u' v' s"
    by (simp add: meleeResolution_def same c)
  have es: "estimateMeleeEffectiveness W u v = estimateMeleeEffectiveness W u' v'"
    by (simp add: estimateMeleeEffectiveness_def same)
  have q: "(hasFoughtInMeleeThisTurn u \<longrightarrow> effectiveQuality u = 6) \<and>
           (\<not> hasFoughtInMeleeThisTurn u \<longrightarrow> effectiveQuality u = quality u) \<and>
           effectiveStats u = u\<lparr>quality := effectiveQuality u\<rparr> \<and>
           (hasFoughtInMeleeThisTurn u \<longrightarrow>
              getSuccessChance (real_of_int (effectiveQuality u)) = 1 / 6)"
    by (simp add: effectiveQuality_def effectiveStats_def getSuccessChance_def)
  show ?thesis
    using six mr es q unfolding u'_def v'_def by blast
qed

text \<open>
  The claim as stated fails: the effective quality of the fatigued veterans is 6, not 7,
  and with a hit modifier of 1 a roll of 5 hits at quality 6 but not at quality 7. In a
  melee exchange the three fatigued veterans, with that modifier, roll 5, 5, 5 and
  inflict three wounds on the sentry without a natural 6.
\<close>

theorem fatigue_quality_seven_counterexample:
  "hasFoughtInMeleeThisTurn veterans \<and> effectiveQuality veterans = 6 \<and>
   effectiveQuality veterans \<noteq> 7 \<and> quality (effectiveStats veterans) \<noteq> 7 \<and>
   fst (simulateHitRolls 1 (effectiveQuality veterans) 1 (moraleState\<lparr>dice := diceOf [4]\<rparr>)) = (1, 0) \<and>
   fst (simulateHitRolls 1 7 1 (moraleState\<lparr>dice := diceOf [4]\<rparr>)) = (0, 0) \<and>
   map (\<lambda>k. int (diceOf [4, 4, 4] k mod 6) + 1) [0 ..< 7] = [5, 5, 5, 1, 1, 1, 1] \<and>
   fst (meleeResolution (veterans\<lparr>Modifier := Some 1\<rparr>) sentry
          (moraleState\<lparr>dice := diceOf [4, 4, 4]\<rparr>)) =
     \<lparr>totalWoundsToDefender = 3, totalWoundsToAttacker = 0\<rparr>"
  by (simp add: run_defs example_defs upt_rec)

theorem fatigue_forces_quality_six_witness:
  "hasFoughtInMeleeThisTurn veterans \<and> (0::int) \<le> 0 \<and>
   effectiveQuality veterans = 6 \<and>
   fst (fst (simulateHitRolls 3 (effectiveQuality veterans) 0 cannonState)) =
     snd (fst (simulateHitRolls 3 (effectiveQuality veterans) 0 cannonState)) \<and>
   fst (simulateHitRolls 3 (effectiveQuality veterans) 0 cannonState) = (3, 3) \<and>
   getSuccessChance (real_of_int (effectiveQuality veterans)) = 1 / 6"
proof -
  have h: "hasFoughtInMeleeThisTurn veterans" "(0::int) \<le> 0" by (simp_all add: example_defs)
  have e: "fst (simulateHitRolls 3 (effectiveQuality veterans) 0 cannonState) = (3, 3)"
    by (simp add: run_defs example_defs)
  note t = fatigue_forces_quality_six
    [where u = veterans and v = veterans and W = "wobj cannonState" and modifier = 0
       and numDice = 3 and s = cannonState]
  have c1: "effectiveQuality veterans = 6" using t [THEN conjunct1] h(1) by (rule mp)
  have c6: "fst (fst (simulateHitRolls 3 (effectiveQuality veterans) 0 cannonState)) =
            snd (fst (simulateHitRolls 3 (effectiveQuality veterans) 0 cannonState))"
    using t [THEN conjunct2, THEN conjunct2, THEN conjunct2, THEN conjunct2, THEN conjunct2,
             THEN conjunct1] conjI [OF h] by (rule mp)
  have c7: "getSuccessChance (real_of_int (effectiveQuality veterans)) = 1 / 6"
    using t [THEN conjunct2, THEN conjunct2, THEN conjunct2, THEN conjunct2, THEN conjunct2,
             THEN conjunct2] h(1) by (rule mp)
  show ?thesis by (rule conjI h e c1 c6 c7)+
qed

section \<open>Properties of the morale resolver\<close>

text \<open>
  C5. The morale test rolls one die and passes iff the roll is at least the unit's
  quality, a plain comparison: a quality of 1 or less always passes, also on a natural 1,
  and without Fearless a quality above 6 never passes, also on a natural 6. If the roll
  fails and the unit is Fearless, exactly one more die is rolled, against 4. On final
  failure the outcome is SHAKEN when the model count is at least half the original one
  and RETREAT when it is below. In the melee round PASS leaves the unit objects as they
  are, SHAKEN sets the loser's \<open>shaken\<close> flag and RETREAT sets its model count to 0.
\<close>

theorem morale_test:
  "(case rollDie s of (roll1, s1) \<Rightarrow>
    case rollDie s1 of (roll2, s2) \<Rightarrow>
      let fearless = (''Fearless'' \<in> set (specialRules u));
          retry = (roll1 < quality u \<and> fearless);
          passed = (if retry then 4 \<le> roll2 else quality u \<le> roll1)
      in resolvePostCombatMorale u original s =
           (if passed then PASS
            else if real_of_int (numModels u) < real_of_int original / 2 then RETREAT
            else SHAKEN,
            if retry then s2 else s1) \<and>
         pos (snd (resolvePostCombatMorale u original s)) = pos s + (if retry then 2 else 1) \<and>
         (quality u \<le> 1 \<longrightarrow> fst (resolvePostCombatMorale u original s) = PASS) \<and>
         (6 < quality u \<and> \<not> fearless \<longrightarrow> fst (resolvePostCombatMorale u original s) \<noteq> PASS)) \<and>
   (0 < numModels (uobj s l) \<longrightarrow>
      (case resolvePostCombatMorale (uobj s l) (originalNumModels (uobj s l))
              (pushLog (LostCombat (name (uobj s l))) s) of
         (outcome, s') \<Rightarrow>
           uobj (applyMorale (Some l) s) =
             (case outcome of
                PASS \<Rightarrow> uobj s
              | SHAKEN \<Rightarrow> (uobj s)(l := (uobj s l)\<lparr>shaken := True\<rparr>)
              | RETREAT \<Rightarrow> (uobj s)(l := (uobj s l)\<lparr>numModels := 0\<rparr>)) \<and>
           wobj (applyMorale (Some l) s) = wobj s \<and>
           currentDistance (applyMorale (Some l) s) = currentDistance s \<and>
           pos (applyMorale (Some l) s) = pos s'))"
proof -
  have r: "1 \<le> fst (rollDie s) \<and> fst (rollDie s) \<le> 6" by (rule rollDie_range)
  then show ?thesis
    by (auto simp: resolvePostCombatMorale_def applyMorale_def rollDie_def Let_def split_beta
          pushLog_simps setUnit_simps
          split: morale.splits)
qed

theorem morale_test_witness:
  "0 < numModels (uobj moraleState 0) \<and>
   resolvePostCombatMorale veterans 5 moraleState = (SHAKEN, moraleState\<lparr>pos := 2\<rparr>) \<and>
   pos (snd (resolvePostCombatMorale veterans 5 moraleState)) = pos moraleState + 2 \<and>
   shaken (uobj (applyMorale (Some 0) moraleState) 0) \<and>
   numModels (uobj (applyMorale (Some 0) moraleState) 0) = 3"
proof -
  have h: "0 < numModels (uobj moraleState 0)" by (simp add: example_defs)
  have e: "rollDie moraleState = (2, moraleState\<lparr>pos := 1\<rparr>)"
    "rollDie (moraleState\<lparr>pos := 1\<rparr>) = (3, moraleState\<lparr>pos := 2\<rparr>)"
    "''Fearless'' \<in> set (specialRules veterans)" "quality veterans = 4" "numModels veterans = 3"
    "pos moraleState = 0"
    by (simp_all add: run_defs example_defs)
  have r: "resolvePostCombatMorale veterans 5 moraleState = (SHAKEN, moraleState\<lparr>pos := 2\<rparr>) \<and>
           pos (snd (resolvePostCombatMorale veterans 5 moraleState)) = pos moraleState + 2"
    using morale_test [where s = moraleState and u = veterans and original = 5 and l = 0] e
    by (simp add: Let_def)
  have a: "shaken (uobj (applyMorale (Some 0) moraleState) 0) \<and>
           numModels (uobj (applyMorale (Some 0) moraleState) 0) = 3"
    by (simp add: run_defs example_defs)
  show ?thesis
    by (rule conjI h conjunct1 [OF r] conjunct2 [OF r] conjunct1 [OF a] conjunct2 [OF a])+
qed

text \<open>
  C10. After the kills of a melee round, the morale test is made only if one side took
  strictly more wounds than the other and that side has a model left: then a morale die
  is rolled. On a draw, or when the loser has no model left, no die is rolled and no
  unit object changes after the kills.
\<close>

theorem morale_only_for_surviving_loser:
  "case meleeResolution (uobj s unit1) (uobj s unit2) s of
     (meleeResult, s1) \<Rightarrow>
       let afterKills = applyMeleeKills meleeResult unit1 unit2 s1;
           toDefender = totalWoundsToDefender meleeResult;
           toAttacker = totalWoundsToAttacker meleeResult;
           loser = (if toAttacker < toDefender then unit2 else unit1)
       in (toDefender = toAttacker \<longrightarrow>
             handleMeleeRound unit1 unit2 s = pushLog MeleeDraw afterKills) \<and>
          (toDefender \<noteq> toAttacker \<and> numModels (uobj afterKills loser) \<le> 0 \<longrightarrow>
             handleMeleeRound unit1 unit2 s = afterKills) \<and>
          (toDefender \<noteq> toAttacker \<and> 0 < numModels (uobj afterKills loser) \<longrightarrow>
             handleMeleeRound unit1 unit2 s = applyMorale (Some loser) afterKills \<and>
             pos afterKills < pos (handleMeleeRound unit1 unit2 s)) \<and>
          (toDefender = toAttacker \<or> numModels (uobj afterKills loser) \<le> 0 \<longrightarrow>
             pos (handleMeleeRound unit1 unit2 s) = pos afterKills \<and>
             uobj (handleMeleeRound unit1 unit2 s) = uobj afterKills)"
proof -
  obtain r s1 where m: "meleeResolution (uobj s unit1) (uobj s unit2) s = (r, s1)"
    by (metis prod.exhaust)
  let ?k = "applyMeleeKills r unit1 unit2 s1"
  let ?l = "if totalWoundsToAttacker r < totalWoundsToDefender r then unit2 else unit1"
  have h: "handleMeleeRound unit1 unit2 s = applyMorale (meleeLoser r unit1 unit2) ?k"
    using m by (simp add: handleMeleeRound_def)
  have draw: "handleMeleeRound unit1 unit2 s = pushLog MeleeDraw ?k"
    if "totalWoundsToDefender r = totalWoundsToAttacker r"
    using that h by (simp add: meleeLoser_def applyMorale_def)
  have l: "meleeLoser r unit1 unit2 = Some ?l"
    if "totalWoundsToDefender r \<noteq> totalWoundsToAttacker r"
    using that by (auto simp: meleeLoser_def)
  have dead: "handleMeleeRound unit1 unit2 s = ?k"
    if "totalWoundsToDefender r \<noteq> totalWoundsToAttacker r" "numModels (uobj ?k ?l) \<le> 0"
    using that h l by (simp add: applyMorale_def)
  have alive: "handleMeleeRound unit1 unit2 s = applyMorale (Some ?l) ?k \<and>
               pos ?k < pos (handleMeleeRound unit1 unit2 s)"
    if d: "totalWoundsToDefender r \<noteq> totalWoundsToAttacker r" and n: "0 < numModels (uobj ?k ?l)"
  proof -
    let ?s1 = "pushLog (LostCombat (name (uobj ?k ?l))) ?k"
    obtain mo s2 where mo: "resolvePostCombatMorale (uobj ?s1 ?l) (originalNumModels (uobj ?s1 ?l)) ?s1
                              = (mo, s2)"
      by (metis prod.exhaust)
    have p: "pos s2 = pos ?k + 1 \<or> pos s2 = pos ?k + 2"
      using resolvePostCombatMorale_state [OF mo] by (auto simp: pushLog_simps)
    have "pos (applyMorale (Some ?l) ?k) = pos s2"
      using n mo
      by (cases mo) (simp_all add: applyMorale_def Let_def pushLog_simps setUnit_simps)
    then show ?thesis using h l [OF d] p by auto
  qed
  have same: "pos (handleMeleeRound unit1 unit2 s) = pos ?k \<and>
              uobj (handleMeleeRound unit1 unit2 s) = uobj ?k"
    if "totalWoundsToDefender r = totalWoundsToAttacker r \<or> numModels (uobj ?k ?l) \<le> 0"
    using that draw dead by (cases "totalWoundsToDefender r = totalWoundsToAttacker r")
      (auto simp: pushLog_simps)
  show ?thesis
    unfolding m prod.case Let_def using draw dead alive same by blast
qed

theorem morale_only_for_surviving_loser_witness:
  "(let mr = meleeResolution (uobj duelStart 2) (uobj duelStart 3) duelStart;
        afterKills = applyMeleeKills (fst mr) 2 3 (snd mr)
    in totalWoundsToDefender (fst mr) = 5 \<and> totalWoundsToAttacker (fst mr) = 0 \<and>
       numModels (uobj afterKills 3) = 0 \<and> pos afterKills = 11 \<and>
       handleMeleeRound 2 3 duelStart = afterKills \<and>
       pos (handleMeleeRound 2 3 duelStart) = pos afterKills) \<and>
   (let mr = meleeResolution (uobj chargeStart 2) (uobj chargeStart 3) chargeStart;
        afterKills = applyMeleeKills (fst mr) 2 3 (snd mr)
    in totalWoundsToDefender (fst mr) = 2 \<and> totalWoundsToAttacker (fst mr) = 0 \<and>
       numModels (uobj afterKills 3) = 3 \<and> pos afterKills = 14 \<and>
       handleMeleeRound 2 3 chargeStart = applyMorale (Some 3) afterKills \<and>
       pos afterKills < pos (handleMeleeRound 2 3 chargeStart))"
proof -
  let ?mr = "meleeResolution (uobj duelStart 2) (uobj duelStart 3) duelStart"
  let ?k = "applyMeleeKills (fst ?mr) 2 3 (snd ?mr)"
  have e: "totalWoundsToDefender (fst ?mr) = 5" "totalWoundsToAttacker (fst ?mr) = 0"
    "numModels (uobj ?k 3) = 0" "pos ?k = 11"
    by (simp_all add: run_defs example_defs)
  note t = morale_only_for_surviving_loser
    [where s = duelStart and ?unit1.0 = 2 and ?unit2.0 = 3, unfolded split_beta Let_def]
  have l: "(if totalWoundsToAttacker (fst ?mr) < totalWoundsToDefender (fst ?mr)
            then 3 else 2) = (3::nat)"
    and p: "totalWoundsToDefender (fst ?mr) \<noteq> totalWoundsToAttacker (fst ?mr) \<and>
            numModels (uobj ?k 3) \<le> 0"
    using e by simp_all
  have a1: "handleMeleeRound 2 3 duelStart = ?k"
    using t [unfolded l, THEN conjunct2, THEN conjunct1] p by (rule mp)
  have a: "handleMeleeRound 2 3 duelStart = ?k \<and> pos (handleMeleeRound 2 3 duelStart) = pos ?k"
    using a1 by simp
  let ?mr' = "meleeResolution (uobj chargeStart 2) (uobj chargeStart 3) chargeStart"
  let ?k' = "applyMeleeKills (fst ?mr') 2 3 (snd ?mr')"
  have e': "totalWoundsToDefender (fst ?mr') = 2" "totalWoundsToAttacker (fst ?mr') = 0"
    "numModels (uobj ?k' 3) = 3" "pos ?k' = 14"
    by (simp_all add: run_defs example_defs)
  note t' = morale_only_for_surviving_loser
    [where s = chargeStart and ?unit1.0 = 2 and ?unit2.0 = 3, unfolded split_beta Let_def]
  have l': "(if totalWoundsToAttacker (fst ?mr') < totalWoundsToDefender (fst ?mr')
             then 3 else 2) = (3::nat)"
    and p': "totalWoundsToDefender (fst ?mr') \<noteq> totalWoundsToAttacker (fst ?mr') \<and>
             0 < numModels (uobj ?k' 3)"
    using e' by simp_all
  have a': "handleMeleeRound 2 3 chargeStart = applyMorale (Some 3) ?k' \<and>
            pos ?k' < pos (handleMeleeRound 2 3 chargeStart)"
    using t' [unfolded l', THEN conjunct2, THEN conjunct2, THEN conjunct1] p' by (rule mp)
  show ?thesis unfolding Let_def
    by (rule conjI e e' conjunct1 [OF a] conjunct2 [OF a] conjunct1 [OF a'] conjunct2 [OF a'])+
qed

section \<open>Properties of the decision maker\<close>

text \<open>
  C2 at a failing input. Scouts that are not shaken stand 20 from the enemy, beyond their
  charge range of 8, with a carbine (range 12) listed before a rifle (range 24).
  \<^verbatim>\<open>decideAction\<close> looks at the first ranged weapon only and returns \<open>Rush\<close>,
  although the rifle covers the distance.
\<close>

theorem decideAction_rushes_with_rifle_in_range:
  "(let s0 = snd (startState 0 1 20 scoutsState)
    in \<not> shaken (uobj s0 2) \<and> currentDistance s0 = 20 \<and> chargeRange (uobj s0 2) = 8 \<and>
       advanceRange (uobj s0 2) = 4 \<and>
       map (\<lambda>w. Range_w (wobj s0 w)) (weapons (uobj s0 2)) = [12, 24] \<and>
       decideAction (wobj s0) (uobj s0 2) (uobj s0 3) (currentDistance s0) = Rush) \<and>
   take 2 (log_result (fst (simulateRangedExchangeUntilMelee 0 1 20 True scoutsState))) =
     [TurnHeader 1, Rushes ''Scouts'' 8]"
  by (simp add: run_defs example_defs)

section \<open>Properties of the orchestrator\<close>

text \<open>
  C1, as the code has it. On hold or advance, after any movement, the unit fires the
  first weapon of its list, in list order, that has a range above 0 and at least
  the (possibly updated) distance, whenever there is one; with no such weapon it does
  not fire.
\<close>

theorem fires_first_weapon_in_reach:
  "let reaches = (\<lambda>w. 0 < Range_w (wobj s w) \<and> currentDistance s \<le> Range_w (wobj s w));
       decision = decideAction (wobj s) (uobj s u) (uobj s v) (currentDistance s)
   in ((\<forall>w \<in> set (weapons (uobj s u)). \<not> reaches w) \<longrightarrow> fireRanged u v s = s) \<and>
      ((\<exists>w \<in> set (weapons (uobj s u)). reaches w) \<longrightarrow>
         (\<exists>before rangedWeapon after.
            weapons (uobj s u) = before @ rangedWeapon # after \<and> reaches rangedWeapon \<and>
            (\<forall>w \<in> set before. \<not> reaches w) \<and>
            fireRanged u v s =
              (case rangedAttack (wobj s rangedWeapon) (uobj s u) (numModels (uobj s u))
                      (uobj s v) (currentDistance s) s of
                 (result, s1) \<Rightarrow>
                   let kills = min (numModels (uobj s1 v))
                                 (totalWounds result div toughOr1 (uobj s1 v))
                   in pushLog (WeaponKills (name_w (wobj s rangedWeapon)) kills)
                        (setUnit v (\<lambda>x. x\<lparr>numModels := numModels x - kills\<rparr>) s1)))) \<and>
      (decision = Hold \<longrightarrow>
         unitActs u v s = (False, fireRanged u v (pushLog (HoldsAndShoots (name (uobj s u))) s))) \<and>
      (decision = Advance \<longrightarrow>
         unitActs u v s = (False, fireRanged u v (advanceMove u (currentDistance s) s)))"
proof -
  let ?P = "\<lambda>w. 0 < Range_w (wobj s w) \<and> currentDistance s \<le> Range_w (wobj s w)"
  have none: "fireRanged u v s = s" if "\<forall>w \<in> set (weapons (uobj s u)). \<not> ?P w"
  proof -
    have "find ?P (weapons (uobj s u)) = None" using that by (simp add: find_None_iff)
    then show ?thesis by (simp add: fireRanged_def)
  qed
  have some: "\<exists>before rangedWeapon after.
            weapons (uobj s u) = before @ rangedWeapon # after \<and> ?P rangedWeapon \<and>
            (\<forall>w \<in> set before. \<not> ?P w) \<and>
            fireRanged u v s =
              (case rangedAttack (wobj s rangedWeapon) (uobj s u) (numModels (uobj s u))
                      (uobj s v) (currentDistance s) s of
                 (result, s1) \<Rightarrow>
                   let kills = min (numModels (uobj s1 v))
                                 (totalWounds result div toughOr1 (uobj s1 v))
                   in pushLog (WeaponKills (name_w (wobj s rangedWeapon)) kills)
                        (setUnit v (\<lambda>x. x\<lparr>numModels := numModels x - kills\<rparr>) s1))"
    if "\<exists>w \<in> set (weapons (uobj s u)). ?P w"
  proof -
    from find_split [OF that] obtain xs x ys where
      sp: "weapons (uobj s u) = xs @ x # ys" "?P x" "\<forall>y \<in> set xs. \<not> ?P y"
      by blast
    have f: "find ?P (weapons (uobj s u)) = Some x"
      unfolding sp(1) by (rule find_first [of ?P, OF sp(2) sp(3)])
    obtain r s1 where ra: "rangedAttack (wobj s x) (uobj s u) (numModels (uobj s u))
                      (uobj s v) (currentDistance s) s = (r, s1)"
      by (metis prod.exhaust)
    from rangedAttack_result [OF ra] obtain k where s1: "s1 = s\<lparr>pos := pos s + k\<rparr>" by blast
    have "fireRanged u v s =
              (case rangedAttack (wobj s x) (uobj s u) (numModels (uobj s u))
                      (uobj s v) (currentDistance s) s of
                 (result, s1) \<Rightarrow>
                   let kills = min (numModels (uobj s1 v))
                                 (totalWounds result div toughOr1 (uobj s1 v))
                   in pushLog (WeaponKills (name_w (wobj s x)) kills)
                        (setUnit v (\<lambda>x. x\<lparr>numModels := numModels x - kills\<rparr>) s1))"
      using f ra s1 by (simp add: fireRanged_def Let_def setUnit_simps)
    with sp show ?thesis by blast
  qed
  have hold: "unitActs u v s = (False, fireRanged u v (pushLog (HoldsAndShoots (name (uobj s u))) s))"
    if "decideAction (wobj s) (uobj s u) (uobj s v) (currentDistance s) = Hold"
    using that by (simp add: unitActs_def Let_def)
  have adv: "unitActs u v s = (False, fireRanged u v (advanceMove u (currentDistance s) s))"
    if "decideAction (wobj s) (uobj s u) (uobj s v) (currentDistance s) = Advance"
    using that by (simp add: unitActs_def Let_def)
  show ?thesis
    unfolding Let_def using none some [unfolded Let_def] hold adv by blast
qed


text \<open>
  The claim as stated fails: at distance 10 the scouts fire the carbine (range 12),
  listed first, and not the rifle (range 24), their longest-range weapon in reach.
\<close>

theorem fires_longest_weapon_counterexample:
  "take 3 (log_result (fst (simulateRangedExchangeUntilMelee 0 1 10 True scoutsState))) =
     [TurnHeader 1, HoldsAndShoots ''Scouts'', WeaponKills ''Carbine'' 0] \<and>
   map (wobj scoutsState) (weapons (uobj scoutsState 0)) = [carbine, rifle] \<and>
   Range_w carbine = 12 \<and> Range_w rifle = 24 \<and> (10::int) \<le> 24"
  by (simp add: run_defs example_defs)

theorem fires_first_weapon_in_reach_witness:
  "(\<exists>w \<in> set (weapons (uobj holdStart 2)).
      0 < Range_w (wobj holdStart w) \<and> currentDistance holdStart \<le> Range_w (wobj holdStart w)) \<and>
   decideAction (wobj holdStart) (uobj holdStart 2) (uobj holdStart 3) (currentDistance holdStart)
     = Hold \<and>
   unitActs 2 3 holdStart =
     (False, fireRanged 2 3 (pushLog (HoldsAndShoots (name (uobj holdStart 2))) holdStart)) \<and>
   log_lines (snd (unitActs 2 3 holdStart)) =
     [HoldsAndShoots ''Scouts'', WeaponKills ''Carbine'' 0]"
proof -
  have h: "\<exists>w \<in> set (weapons (uobj holdStart 2)).
      0 < Range_w (wobj holdStart w) \<and> currentDistance holdStart \<le> Range_w (wobj holdStart w)"
    by (simp add: run_defs example_defs)
  have d: "decideAction (wobj holdStart) (uobj holdStart 2) (uobj holdStart 3)
             (currentDistance holdStart) = Hold"
    by (simp add: run_defs example_defs)
  note t = fires_first_weapon_in_reach [where s = holdStart and u = 2 and v = 3, unfolded Let_def]
  have a: "unitActs 2 3 holdStart =
     (False, fireRanged 2 3 (pushLog (HoldsAndShoots (name (uobj holdStart 2))) holdStart))"
    using t [THEN conjunct2, THEN conjunct2, THEN conjunct1] d by (rule mp)
  have l: "log_lines (snd (unitActs 2 3 holdStart)) =
     [HoldsAndShoots ''Scouts'', WeaponKills ''Carbine'' 0]"
    by (simp add: run_defs example_defs)
  show ?thesis by (rule conjI h d a l)+
qed

text \<open>
  C4, as the code has it. In a turn whose first-acting unit has models left: if its
  decision is charge, the distance becomes 0, exactly one melee round is resolved, and
  the turn is over, the second unit does not act; if its decision is fight, the melee
  round is resolved and the second unit acts afterwards, provided it has a model left.
\<close>

theorem charge_ends_the_turn:
  "let s3 = turnStart attacker defender turn s;
       first = (if attackerFirst then attacker else defender);
       second = (if attackerFirst then defender else attacker);
       decision = decideAction (wobj s3) (uobj s3 first) (uobj s3 second) (currentDistance s3)
   in 0 < numModels (uobj s3 first) \<longrightarrow>
        (decision = Charge \<longrightarrow>
           playTurn attackerFirst attacker defender turn s =
             handleMeleeRound first second
               (pushLog (Charges (name (uobj s3 first)) (name (uobj s3 second)))
                  (s3\<lparr>currentDistance := 0\<rparr>)) \<and>
           currentDistance (playTurn attackerFirst attacker defender turn s) = 0 \<and>
           meleeRounds (log_lines (playTurn attackerFirst attacker defender turn s)) =
             meleeRounds (log_lines s) + 1) \<and>
        (decision = Fight \<longrightarrow>
           (let s4 = handleMeleeRound first second
                       (pushLog (Fights (name (uobj s3 first)) (name (uobj s3 second))) s3)
            in playTurn attackerFirst attacker defender turn s =
                 (if 0 < numModels (uobj s4 second) then snd (unitActs second first s4) else s4)))"
proof -
  let ?s3 = "turnStart attacker defender turn s"
  have lg: "meleeRounds (log_lines ?s3) = meleeRounds (log_lines s)"
    by (simp add: turnStart_def Let_def pushLog_simps setUnit_simps meleeRounds_def)
  have ch: "actInOrder f g ?s3 =
             handleMeleeRound f g
               (pushLog (Charges (name (uobj ?s3 f)) (name (uobj ?s3 g))) (?s3\<lparr>currentDistance := 0\<rparr>)) \<and>
           currentDistance (actInOrder f g ?s3) = 0 \<and>
           meleeRounds (log_lines (actInOrder f g ?s3)) = meleeRounds (log_lines s) + 1"
    if "0 < numModels (uobj ?s3 f)"
      "decideAction (wobj ?s3) (uobj ?s3 f) (uobj ?s3 g) (currentDistance ?s3) = Charge" for f g
  proof -
    let ?c = "pushLog (Charges (name (uobj ?s3 f)) (name (uobj ?s3 g))) (?s3\<lparr>currentDistance := 0\<rparr>)"
    have "actInOrder f g ?s3 = handleMeleeRound f g ?c"
      using that by (simp add: actInOrder_def firstAction_def unitActs_def Let_def)
    moreover have "meleeRounds (log_lines ?c) = meleeRounds (log_lines s)" "currentDistance ?c = 0"
      using lg by (simp_all add: pushLog_simps meleeRounds_def)
    ultimately show ?thesis using handleMeleeRound_log [of f g ?c] by simp
  qed
  have fi: "actInOrder f g ?s3 =
              (let s4 = handleMeleeRound f g (pushLog (Fights (name (uobj ?s3 f)) (name (uobj ?s3 g))) ?s3)
               in if 0 < numModels (uobj s4 g) then snd (unitActs g f s4) else s4)"
    if "0 < numModels (uobj ?s3 f)"
      "decideAction (wobj ?s3) (uobj ?s3 f) (uobj ?s3 g) (currentDistance ?s3) = Fight" for f g
    using that by (simp add: actInOrder_def firstAction_def unitActs_def Let_def)
  let ?f = "if attackerFirst then attacker else defender"
  let ?g = "if attackerFirst then defender else attacker"
  have pt: "playTurn attackerFirst attacker defender turn s = actInOrder ?f ?g ?s3"
    by (simp add: playTurn_def Let_def)
  show ?thesis
    unfolding Let_def pt using ch [of ?f ?g] fi [of ?f ?g, unfolded Let_def] by blast
qed


text \<open>
  The claim as stated fails: the knights decide to fight, the melee round destroys the
  sentry, and the sentry does not act in that turn.
\<close>

theorem fight_opponent_acts_counterexample:
  "(let s0 = snd (startState 0 1 0 duelState);
        s3 = turnStart 2 3 1 s0
    in 0 < numModels (uobj s3 2) \<and> 0 < numModels (uobj s3 3) \<and>
       decideAction (wobj s3) (uobj s3 2) (uobj s3 3) (currentDistance s3) = Fight \<and>
       log_lines (playTurn True 2 3 1 s0) =
         [TurnHeader 1, Fights ''Knights'' ''Sentry'', MeleeResult ''Knights'' 5 ''Sentry'' 0] \<and>
       numModels (uobj (playTurn True 2 3 1 s0) 3) = 0) \<and>
   fst (simulateRangedExchangeUntilMelee 0 1 0 True duelState) =
     \<lparr>turnsElapsed = 1, finalDistance = 0, survivingA = 5, survivingB = 0,
      log_result =
        [TurnHeader 1, Fights ''Knights'' ''Sentry'', MeleeResult ''Knights'' 5 ''Sentry'' 0]\<rparr>"
  by (simp add: run_defs example_defs)

theorem charge_ends_the_turn_witness:
  "0 < numModels (uobj (turnStart 2 3 1 chargeStart) 2) \<and>
   decideAction (wobj (turnStart 2 3 1 chargeStart)) (uobj (turnStart 2 3 1 chargeStart) 2)
     (uobj (turnStart 2 3 1 chargeStart) 3) (currentDistance (turnStart 2 3 1 chargeStart)) = Charge \<and>
   currentDistance chargeStart = 12 \<and>
   currentDistance (playTurn True 2 3 1 chargeStart) = 0 \<and>
   meleeRounds (log_lines (playTurn True 2 3 1 chargeStart)) = meleeRounds (log_lines chargeStart) + 1 \<and>
   log_lines (playTurn True 2 3 1 chargeStart) =
     [TurnHeader 1, Charges ''Grunts'' ''Grunts'', MeleeResult ''Grunts'' 2 ''Grunts'' 0,
      LostCombat ''Grunts'', IsShaken ''Grunts'']"
proof -
  let ?s3 = "turnStart 2 3 1 chargeStart"
  have h: "0 < numModels (uobj ?s3 2)"
    by (simp add: run_defs example_defs)
  have d: "decideAction (wobj ?s3) (uobj ?s3 2) (uobj ?s3 3) (currentDistance ?s3) = Charge"
    by (simp add: run_defs example_defs)
  have c: "currentDistance chargeStart = 12"
    by (simp add: run_defs example_defs)
  note t = charge_ends_the_turn
    [where s = chargeStart and attacker = 2 and defender = 3 and turn = 1 and attackerFirst = True,
     unfolded Let_def if_True]
  have a: "currentDistance (playTurn True 2 3 1 chargeStart) = 0 \<and>
           meleeRounds (log_lines (playTurn True 2 3 1 chargeStart)) =
             meleeRounds (log_lines chargeStart) + 1"
    using t [THEN mp, OF h, THEN conjunct1, THEN mp, OF d] by (rule conjunct2)
  have l: "log_lines (playTurn True 2 3 1 chargeStart) =
     [TurnHeader 1, Charges ''Grunts'' ''Grunts'', MeleeResult ''Grunts'' 2 ''Grunts'' 0,
      LostCombat ''Grunts'', IsShaken ''Grunts'']"
    by (simp add: run_defs example_defs)
  show ?thesis by (rule conjI h d c conjunct1 [OF a] conjunct2 [OF a] l)+
qed

section \<open>Properties of the engagement simulator\<close>

text \<open>
  C6. For two allocated, well-formed units and a starting distance that is not negative,
  whatever the dice and the acting order: the simulator returns (all functions are
  total) with \<open>turnsElapsed\<close> between 0 and 4; the states \<open>tr\<close> at the head of the turn
  loop, from the state after cloning to the state returned, and the state after the
  first action of every turn, keep both model counts between 0 and their initial values
  and the distance at 0 or more; model counts never go up from one loop head to a
  later one; every turn that is played starts with both units above 0 models, and the
  loop is left with 4 turns played or with a unit at 0 models.
\<close>

theorem engagement_terminates_within_bounds:
  assumes "allocated s unitA" and "allocated s unitB"
    and "wellFormed (wobj s) (uobj s unitA)" and "wellFormed (wobj s) (uobj s unitB)"
    and "0 \<le> startingDistance"
  shows
    "case startState unitA unitB startingDistance s of
       ((a, d), s0) \<Rightarrow>
     case simulateRangedExchangeUntilMelee unitA unitB startingDistance attackerFirst s of
       (r, s') \<Rightarrow>
     let tr = turnTrace attackerFirst a d 1 s0;
         nA = numModels (uobj s unitA);
         nB = numModels (uobj s unitB)
     in hd tr = s0 \<and> last tr = s' \<and> turnsElapsed r = int (length tr) - 1 \<and>
        0 \<le> turnsElapsed r \<and> turnsElapsed r \<le> 4 \<and>
        0 \<le> survivingA r \<and> survivingA r \<le> nA \<and>
        0 \<le> survivingB r \<and> survivingB r \<le> nB \<and>
        0 \<le> finalDistance r \<and>
        (\<forall>i < length tr. inBounds a d nA nB (tr ! i)) \<and>
        (\<forall>i j. i \<le> j \<and> j < length tr \<longrightarrow>
           numModels (uobj (tr ! j) a) \<le> numModels (uobj (tr ! i) a) \<and>
           numModels (uobj (tr ! j) d) \<le> numModels (uobj (tr ! i) d)) \<and>
        (\<forall>i < length tr - 1. \<forall>t.
           inBounds a d nA nB (snd (firstAction a d (turnStart a d t (tr ! i)))) \<and>
           inBounds a d nA nB (snd (firstAction d a (turnStart a d t (tr ! i))))) \<and>
        (\<forall>i < length tr - 1.
           0 < numModels (uobj (tr ! i) a) \<and> 0 < numModels (uobj (tr ! i) d)) \<and>
        (turnsElapsed r = 4 \<or> survivingA r = 0 \<or> survivingB r = 0)"
proof -
  obtain a d s0 where st: "startState unitA unitB startingDistance s = ((a, d), s0)"
    by (metis prod.exhaust)
  from startState_result [OF st] assms
  have i0: "inv a d s0" and nA: "numModels (uobj s0 a) = numModels (uobj s unitA)"
    and nB: "numModels (uobj s0 d) = numModels (uobj s unitB)"
    by blast+
  let ?tr = "turnTrace attackerFirst a d 1 s0"
  let ?r = "\<lparr>turnsElapsed = int (length ?tr) - 1, finalDistance = currentDistance (last ?tr),
             survivingA = numModels (uobj (last ?tr) a), survivingB = numModels (uobj (last ?tr) d),
             log_result = log_lines (last ?tr)\<rparr>"
  have sim: "simulateRangedExchangeUntilMelee unitA unitB startingDistance attackerFirst s
               = (?r, last ?tr)"
    using st by (simp add: simulateRangedExchangeUntilMelee_def turnLoop_trace)
  have len: "1 \<le> length ?tr" "int (length ?tr) \<le> 5"
    using turnTrace_length [of attackerFirst a d 1 s0] by simp_all
  then have ne: "?tr \<noteq> []" by auto
  have hd: "hd ?tr = s0" by (subst turnTrace.simps) simp
  note ch = turnTrace_chain [OF i0, of attackerFirst 1]
  have ev: "evolves a d s0 (?tr ! i)" if "i < length ?tr" for i
    using ch that by simp
  have b: "inBounds a d (numModels (uobj s unitA)) (numModels (uobj s unitB)) (?tr ! i)"
    if "i < length ?tr" for i
    using inBounds_evolves [OF i0 ev [OF that]] nA nB by simp
  have lastb: "inBounds a d (numModels (uobj s unitA)) (numModels (uobj s unitB)) (last ?tr)"
    using b [of "length ?tr - 1"] ne by (simp add: last_conv_nth)
  have mono: "numModels (uobj (?tr ! j) a) \<le> numModels (uobj (?tr ! i) a) \<and>
              numModels (uobj (?tr ! j) d) \<le> numModels (uobj (?tr ! i) d)"
    if "i \<le> j" "j < length ?tr" for i j
  proof (cases "i = j")
    case True
    then show ?thesis by simp
  next
    case False
    with that have "i < j" by simp
    then have "evolves a d (?tr ! i) (?tr ! j)"
      using ch that(2) by (simp add: sorted_wrt_iff_nth_less)
    then show ?thesis by (simp add: evolves_def)
  qed
  have mid: "inBounds a d (numModels (uobj s unitA)) (numModels (uobj s unitB))
               (snd (firstAction a d (turnStart a d t (?tr ! i)))) \<and>
             inBounds a d (numModels (uobj s unitA)) (numModels (uobj s unitB))
               (snd (firstAction d a (turnStart a d t (?tr ! i))))"
    if "i < length ?tr - 1" for i t
  proof -
    have e1: "evolves a d s0 (turnStart a d t (?tr ! i))"
      using that by (intro evolves_trans [OF ev turnStart_ok]) simp
    have i1: "inv a d (turnStart a d t (?tr ! i))" by (rule inv_evolves [OF i0 e1])
    have "evolves a d s0 (snd (firstAction a d (turnStart a d t (?tr ! i))))"
      by (rule evolves_trans [OF e1 firstAction_ok [OF i1]])
    moreover have "evolves a d s0 (snd (firstAction d a (turnStart a d t (?tr ! i))))"
      by (rule evolves_trans [OF e1 evolves_sym_refs [OF firstAction_ok [OF inv_sym_refs [OF i1]]]])
    ultimately show ?thesis using inBounds_evolves [OF i0] nA nB by simp
  qed
  note stop = turnTrace_stop [of attackerFirst a d 1 s0]
  have fin: "int (length ?tr) - 1 = 4 \<or> numModels (uobj (last ?tr) a) = 0 \<or>
             numModels (uobj (last ?tr) d) = 0"
    using stop lastb by (auto simp: inBounds_def)
  let ?nA = "numModels (uobj s unitA)" and ?nB = "numModels (uobj s unitB)"
  have c1: "hd ?tr = s0 \<and> last ?tr = last ?tr \<and> turnsElapsed ?r = int (length ?tr) - 1 \<and>
            0 \<le> turnsElapsed ?r \<and> turnsElapsed ?r \<le> 4"
    using hd len ne by simp
  have c2: "0 \<le> survivingA ?r \<and> survivingA ?r \<le> ?nA \<and>
            0 \<le> survivingB ?r \<and> survivingB ?r \<le> ?nB \<and> 0 \<le> finalDistance ?r"
    using lastb by (simp add: inBounds_def)
  have c3: "\<forall>i < length ?tr. inBounds a d ?nA ?nB (?tr ! i)"
    using b by blast
  have c4: "\<forall>i j. i \<le> j \<and> j < length ?tr \<longrightarrow>
           numModels (uobj (?tr ! j) a) \<le> numModels (uobj (?tr ! i) a) \<and>
           numModels (uobj (?tr ! j) d) \<le> numModels (uobj (?tr ! i) d)"
    using mono by blast
  have c5: "\<forall>i < length ?tr - 1. \<forall>t.
           inBounds a d ?nA ?nB (snd (firstAction a d (turnStart a d t (?tr ! i)))) \<and>
           inBounds a d ?nA ?nB (snd (firstAction d a (turnStart a d t (?tr ! i))))"
    using mid by blast
  have c6: "\<forall>i < length ?tr - 1.
           0 < numModels (uobj (?tr ! i) a) \<and> 0 < numModels (uobj (?tr ! i) d)"
    using stop by blast
  have c7: "turnsElapsed ?r = 4 \<or> survivingA ?r = 0 \<or> survivingB ?r = 0"
    using fin by simp
  show ?thesis
    unfolding st sim prod.case Let_def
    using c1 c2 c3 c4 c5 c6 c7 by blast
qed


theorem engagement_terminates_within_bounds_witness:
  "allocated gruntsState 0 \<and> allocated gruntsState 1 \<and>
   wellFormed (wobj gruntsState) (uobj gruntsState 0) \<and>
   wellFormed (wobj gruntsState) (uobj gruntsState 1) \<and> (0::int) \<le> 24 \<and>
   (let r = fst (simulateRangedExchangeUntilMelee 0 1 24 True gruntsState)
    in turnsElapsed r = 4 \<and> survivingA r = 4 \<and> survivingB r = 0 \<and> finalDistance r = 24 \<and>
       turnsElapsed r \<le> 4 \<and> 0 \<le> survivingA r \<and> survivingA r \<le> 5 \<and>
       0 \<le> survivingB r \<and> survivingB r \<le> 5 \<and> 0 \<le> finalDistance r)"
proof -
  have h: "allocated gruntsState 0" "allocated gruntsState 1"
    "wellFormed (wobj gruntsState) (uobj gruntsState 0)"
    "wellFormed (wobj gruntsState) (uobj gruntsState 1)" "(0::int) \<le> 24"
    by (simp_all add: allocated_def wellFormed_def deadlyOk_def example_defs)
  have n: "numModels (uobj gruntsState 0) = 5" "numModels (uobj gruntsState (Suc 0)) = 5"
    by (simp_all add: example_defs)
  have run: "fst (simulateRangedExchangeUntilMelee 0 1 24 True gruntsState) =
     \<lparr>turnsElapsed = 4, finalDistance = 24, survivingA = 4, survivingB = 0,
      log_result =
        [TurnHeader 1, HoldsAndShoots ''Grunts'', WeaponKills ''Rifle'' 1,
         HoldsAndShoots ''Grunts'', WeaponKills ''Rifle'' 0, TurnHeader 2,
         HoldsAndShoots ''Grunts'', WeaponKills ''Rifle'' 1,
         HoldsAndShoots ''Grunts'', WeaponKills ''Rifle'' 0, TurnHeader 3,
         HoldsAndShoots ''Grunts'', WeaponKills ''Rifle'' 1,
         HoldsAndShoots ''Grunts'', WeaponKills ''Rifle'' 1, TurnHeader 4,
         HoldsAndShoots ''Grunts'', WeaponKills ''Rifle'' 2]\<rparr>"
    by (simp add: run_defs example_defs)
  have "let r = fst (simulateRangedExchangeUntilMelee 0 1 24 True gruntsState)
        in turnsElapsed r \<le> 4 \<and> 0 \<le> survivingA r \<and> survivingA r \<le> 5 \<and>
           0 \<le> survivingB r \<and> survivingB r \<le> 5 \<and> 0 \<le> finalDistance r"
    using engagement_terminates_within_bounds [OF h, of True]
    by (simp add: split_beta Let_def n)
  then show ?thesis using h run by (simp add: Let_def)
qed


text \<open>
  C7. A run of the simulator changes no unit object and no weapon object that was
  allocated before the call: it works on two new unit objects whose weapon arrays hold
  new weapon objects only. So every allocated unit, with every weapon in its list, reads
  after the call as it did before, and a second call receives the same inputs.
\<close>

theorem simulation_leaves_inputs_unchanged:
  "case startState unitA unitB startingDistance s of
     ((a, d), s0) \<Rightarrow>
   case simulateRangedExchangeUntilMelee unitA unitB startingDistance attackerFirst s of
     (r, s') \<Rightarrow>
       (\<forall>x < unext s. uobj s' x = uobj s x) \<and>
       (\<forall>w < wnext s. wobj s' w = wobj s w) \<and>
       unext s \<le> a \<and> unext s \<le> d \<and> a \<noteq> d \<and>
       (\<forall>w \<in> set (weapons (uobj s0 a)) \<union> set (weapons (uobj s0 d)). wnext s \<le> w) \<and>
       (\<forall>u. allocated s u \<longrightarrow>
          uobj s' u = uobj s u \<and>
          map (wobj s') (weapons (uobj s' u)) = map (wobj s) (weapons (uobj s u)))"
proof -
  obtain a d s0 where st: "startState unitA unitB startingDistance s = ((a, d), s0)"
    by (metis prod.exhaust)
  note r = startState_result [OF st]
  have ad: "a = unext s" "d = unext s + 1" using r by blast+
  have u0: "\<forall>x < unext s. uobj s0 x = uobj s x" and w0: "\<forall>w < wnext s. wobj s0 w = wobj s w"
    and fresh: "\<forall>w \<in> set (weapons (uobj s0 a)) \<union> set (weapons (uobj s0 d)). wnext s \<le> w"
    using r by blast+
  let ?tr = "turnTrace attackerFirst a d 1 s0"
  obtain rr where sim: "simulateRangedExchangeUntilMelee unitA unitB startingDistance attackerFirst s
               = (rr, last ?tr)"
    using st by (simp add: simulateRangedExchangeUntilMelee_def turnLoop_trace)
  have "?tr \<noteq> []" using turnTrace_length [of attackerFirst a d 1 s0] by auto
  then have "last ?tr \<in> set ?tr" by simp
  then have w: "writesOnly a d s0 (last ?tr)" using turnTrace_writes by blast
  have u: "\<forall>x < unext s. uobj (last ?tr) x = uobj s x"
    using w u0 ad by (simp add: writesOnly_def)
  have ww: "\<forall>w < wnext s. wobj (last ?tr) w = wobj s w"
    using w w0 by (simp add: writesOnly_def)
  have al: "uobj (last ?tr) u = uobj s u \<and>
            map (wobj (last ?tr)) (weapons (uobj (last ?tr) u)) = map (wobj s) (weapons (uobj s u))"
    if "allocated s u" for u
    using that u ww by (simp add: allocated_def list_all_iff)
  have c: "unext s \<le> a \<and> unext s \<le> d \<and> a \<noteq> d" using ad by simp
  have al': "\<forall>u. allocated s u \<longrightarrow>
          uobj (last ?tr) u = uobj s u \<and>
          map (wobj (last ?tr)) (weapons (uobj (last ?tr) u)) = map (wobj s) (weapons (uobj s u))"
    using al by blast
  show ?thesis
    unfolding st sim prod.case
    using u ww c fresh al' by blast
qed


theorem simulation_leaves_inputs_unchanged_witness:
  "(0::nat) < unext gruntsState \<and> (1::nat) < unext gruntsState \<and> (3::nat) < wnext gruntsState \<and>
   allocated gruntsState 0 \<and>
   (let s' = snd (simulateRangedExchangeUntilMelee 0 1 24 True gruntsState)
    in uobj s' 0 = uobj gruntsState 0 \<and> uobj s' 1 = uobj gruntsState 1 \<and>
       wobj s' 3 = wobj gruntsState 3 \<and>
       map (wobj s') (weapons (uobj s' 0)) = [rifle, blade] \<and>
       numModels (uobj s' 1) = 5 \<and> numModels (uobj s' 3) = 0)"
proof -
  have h: "(0::nat) < unext gruntsState" "(1::nat) < unext gruntsState"
    "(3::nat) < wnext gruntsState" "allocated gruntsState 0"
    by (simp_all add: allocated_def example_defs)
  have m: "map (wobj gruntsState) (weapons (uobj gruntsState 0)) = [rifle, blade]"
    "numModels (uobj gruntsState 1) = 5"
    by (simp_all add: example_defs)
  have clone: "numModels (uobj (snd (simulateRangedExchangeUntilMelee 0 1 24 True gruntsState)) 3) = 0"
    by (simp add: run_defs example_defs)
  have "let s' = snd (simulateRangedExchangeUntilMelee 0 1 24 True gruntsState)
        in uobj s' 0 = uobj gruntsState 0 \<and> uobj s' 1 = uobj gruntsState 1 \<and>
           wobj s' 3 = wobj gruntsState 3 \<and>
           map (wobj s') (weapons (uobj s' 0)) = map (wobj gruntsState) (weapons (uobj gruntsState 0))"
    using simulation_leaves_inputs_unchanged
      [where unitA = 0 and unitB = 1 and startingDistance = 24 and s = gruntsState
         and attackerFirst = True, unfolded split_beta] h
    unfolding Let_def by blast
  then show ?thesis using h m clone unfolding Let_def by metis
qed

end
